theory Spec2Isabelle
  imports Main
begin

section \<open>Data model\<close>

text \<open>
  The documents of \<^verbatim>\<open>src/chat-server/server.ts\<close>, one record per Mongoose schema
  (lines 30-45). An ObjectId is a natural number; the only \<^verbatim>\<open>_id\<close> the code reads is a
  chat's, so it is the only one kept. A \<^verbatim>\<open>Date\<close> is its number of milliseconds since
  the epoch. The schema field \<^verbatim>\<open>text\<close> is named \<open>msg_text\<close>.
\<close>

type_synonym oid = nat
type_synonym instant = nat

record user =
  email :: string
  password :: string
  chats :: "oid list"

record message =
  msg_sender :: string
  msg_text :: string
  msg_timestamp :: instant

record chat =
  chat_id :: oid
  participants :: "string list"
  messages :: "message list"

text \<open>
  The database: the two collections in their natural (insertion) order, and the next
  ObjectId the driver hands out for a new chat.
\<close>

record db =
  db_users :: "user list"
  db_chats :: "chat list"
  next_oid :: oid

definition init_db :: db where
  "init_db = \<lparr>db_users = [], db_chats = [], next_oid = 0\<rparr>"

section \<open>HTTP responses and socket events\<close>

datatype last_message = LastMsg message | Placeholder

record summary =
  s_chatId :: oid
  s_participants :: "string list"
  s_lastMessage :: last_message

text \<open>
  A token on the wire is one word of the \<^verbatim>\<open>Authorization\<close> header. \<open>Jwt k c\<close> is a
  well-formed JSON Web Token with payload \<open>c\<close> whose signature was made with key \<open>k\<close>;
  \<open>Text s\<close> is any other word, the empty one included.
\<close>

record claims =
  c_email :: "string option"
  c_iat :: nat
  c_exp :: "nat option"

datatype part = Text string | Jwt string claims

datatype body =
    Message string
  | LoginOk string part
  | ChatList "summary list"

type_synonym response = "nat \<times> body"

type_synonym conn = nat

text \<open>
  An emission goes to a room, named by a string as \<^verbatim>\<open>io.to\<close> is given one, or to one
  connection.
\<close>

datatype target = ToRoom string | ToSocket conn

datatype event =
    ReceiveMessage string string instant
  | ChatlistUpdated "summary list"
  | ChatCreated summary

type_synonym emission = "target \<times> event"

section \<open>Store queries\<close>

text \<open>\<^verbatim>\<open>User.findOne({ email })\<close>: the first user document with that email.\<close>

definition User_findOne :: "user list \<Rightarrow> string \<Rightarrow> user option" where
  "User_findOne us e = find (\<lambda>u. email u = e) us"

text \<open>\<^verbatim>\<open>Chat.findById(chatId)\<close>.\<close>

definition Chat_findById :: "chat list \<Rightarrow> oid \<Rightarrow> chat option" where
  "Chat_findById cs i = find (\<lambda>c. chat_id c = i) cs"

text \<open>\<^verbatim>\<open>Chat.find({ _id: { $in: user.chats } })\<close>: every chat whose id the user holds, in
  the collection's order.\<close>

definition Chat_find_in :: "chat list \<Rightarrow> oid list \<Rightarrow> chat list" where
  "Chat_find_in cs ids = filter (\<lambda>c. chat_id c \<in> set ids) cs"

text \<open>
  The filter of lines 169-172,
  \<^verbatim>\<open>{ participants: { $all: participants },
     $expr: { $eq: [{ $size: "$participants" }, participants.length] } }\<close>.
  MongoDB's \<^verbatim>\<open>$all\<close> holds when the stored array contains every element of the query
  array, and matches no document when the query array is empty; \<^verbatim>\<open>$size\<close> is the
  length of the stored array.
\<close>

definition chat_matches :: "string list \<Rightarrow> chat \<Rightarrow> bool" where
  "chat_matches ps c =
     (ps \<noteq> [] \<and> list_all (\<lambda>p. p \<in> set (participants c)) ps
      \<and> length (participants c) = length ps)"

text \<open>\<^verbatim>\<open>chat.save()\<close> of a loaded chat: the stored document with that id is replaced.\<close>

fun Chat_save :: "chat \<Rightarrow> chat list \<Rightarrow> chat list" where
  "Chat_save c' [] = []"
| "Chat_save c' (c # cs) =
     (if chat_id c = chat_id c' then c' # cs else c # Chat_save c' cs)"

section \<open>Chat-list summaries\<close>

text \<open>Lines 132-134, 195-197 and 207-209.\<close>

definition lastMessage :: "chat \<Rightarrow> last_message" where
  "lastMessage c =
     (if length (messages c) > 0 then LastMsg (messages c ! (length (messages c) - 1))
      else Placeholder)"

text \<open>Lines 129-135 and 190-198: the list computed for the user \<open>u\<close> found under the
  email \<open>e\<close>.\<close>

definition chatList :: "db \<Rightarrow> user \<Rightarrow> string \<Rightarrow> summary list" where
  "chatList d u e =
     map (\<lambda>c. \<lparr>s_chatId = chat_id c,
               s_participants = filter (\<lambda>p. p \<noteq> e) (participants c),
               s_lastMessage = lastMessage c\<rparr>)
         (Chat_find_in (db_chats d) (chats u))"

text \<open>Lines 204-210.\<close>

definition structuredChat :: "chat \<Rightarrow> summary" where
  "structuredChat existing =
     \<lparr>s_chatId = chat_id existing,
      s_participants = participants existing,
      s_lastMessage = lastMessage existing\<rparr>"

section \<open>Authentication\<close>

definition JWT_SECRET :: string where
  "JWT_SECRET = ''yourSecretKey''"

text \<open>
  \<^verbatim>\<open>jwt.sign({ email }, JWT_SECRET, { expiresIn: '1h' })\<close> at the instant \<open>now\<close>: the
  library stamps \<^verbatim>\<open>iat\<close> with the clock in whole seconds and \<^verbatim>\<open>exp\<close> 3600 seconds
  later.
\<close>

definition jwt_sign :: "string \<Rightarrow> string \<Rightarrow> instant \<Rightarrow> part" where
  "jwt_sign e k now =
     Jwt k \<lparr>c_email = Some e, c_iat = now div 1000, c_exp = Some (now div 1000 + 3600)\<rparr>"

datatype jwt_error = Malformed | InvalidSignature | TokenExpired

text \<open>
  \<^verbatim>\<open>jwt.verify(token, secret)\<close> at the instant \<open>now\<close>: a word that is no token is
  malformed, a signature made with another key is invalid, and a token is expired once
  the clock in whole seconds has reached \<^verbatim>\<open>exp\<close>.
\<close>

fun jwt_verify :: "part \<Rightarrow> string \<Rightarrow> instant \<Rightarrow> jwt_error + claims" where
  "jwt_verify (Text s) k now = Inl Malformed"
| "jwt_verify (Jwt k' c) k now =
     (if k' \<noteq> k then Inl InvalidSignature
      else case c_exp c of
             None \<Rightarrow> Inr c
           | Some x \<Rightarrow> if now div 1000 \<ge> x then Inl TokenExpired else Inr c)"

text \<open>
  \<^verbatim>\<open>verifyToken\<close> (lines 51-66). The header is absent or is the list of its words,
  \<^verbatim>\<open>authorization.split(' ')\<close>. \<open>Inl\<close> is the response sent instead of calling
  \<^verbatim>\<open>next()\<close>; \<open>Inr\<close> is the decoded payload stored in \<^verbatim>\<open>req.user\<close>.
\<close>

definition verifyToken :: "part list option \<Rightarrow> instant \<Rightarrow> response + claims" where
  "verifyToken authorization now =
     (let token = (case authorization of
                     None \<Rightarrow> None
                   | Some ws \<Rightarrow> if 1 < length ws then Some (ws ! 1) else None)
      in case token of
           None \<Rightarrow> Inl (401, Message ''No token provided'')
         | Some tok \<Rightarrow>
             if tok = Text [] then Inl (401, Message ''No token provided'')
             else case jwt_verify tok JWT_SECRET now of
                    Inl err \<Rightarrow> Inl (403, Message ''Invalid token'')
                  | Inr decoded \<Rightarrow>
                      if c_email decoded = None \<or> c_email decoded = Some []
                      then Inl (403, Message ''Invalid token'')
                      else Inr decoded)"

text \<open>
  \<^verbatim>\<open>POST /register\<close> (lines 69-91). The first argument stands for \<^verbatim>\<open>bcrypt.hash\<close>,
  called with the password and the cost factor. A body field is a string, falsy when
  empty.
\<close>

definition register ::
  "(string \<Rightarrow> nat \<Rightarrow> string) \<Rightarrow> db \<Rightarrow> string \<Rightarrow> string \<Rightarrow> db \<times> response" where
  "register bcrypt_hash d e pw =
     (if e = [] \<or> pw = [] then (d, (400, Message ''Required fields''))
      else case User_findOne (db_users d) e of
             Some exists \<Rightarrow> (d, (400, Message ''User exists''))
           | None \<Rightarrow>
               let hashed = bcrypt_hash pw 10;
                   u = \<lparr>email = e, password = hashed, chats = []\<rparr>
               in (d\<lparr>db_users := db_users d @ [u]\<rparr>, (201, Message ''Registered'')))"

text \<open>
  \<^verbatim>\<open>POST /login\<close> (lines 94-116). The first argument stands for \<^verbatim>\<open>bcrypt.compare\<close>,
  called with the password and the stored hash.
\<close>

definition login ::
  "(string \<Rightarrow> string \<Rightarrow> bool) \<Rightarrow> db \<Rightarrow> instant \<Rightarrow> string \<Rightarrow> string \<Rightarrow> db \<times> response" where
  "login bcrypt_compare d now e pw =
     (case User_findOne (db_users d) e of
        None \<Rightarrow> (d, (404, Message ''User not found''))
      | Some u \<Rightarrow>
          if password u = [] then (d, (404, Message ''User not found''))
          else if \<not> bcrypt_compare pw (password u)
          then (d, (401, Message ''Invalid password''))
          else (d, (200, LoginOk ''Login successful'' (jwt_sign e JWT_SECRET now))))"

section \<open>Chat list over HTTP\<close>

text \<open>
  The handler of \<^verbatim>\<open>GET /chatlist\<close> (lines 119-142), run once \<^verbatim>\<open>verifyToken\<close> has
  stored the payload; \<open>e\<close> is \<^verbatim>\<open>req.user.email\<close>.
\<close>

definition chatlist :: "db \<Rightarrow> string \<Rightarrow> db \<times> response" where
  "chatlist d e =
     (case User_findOne (db_users d) e of
        None \<Rightarrow> (d, (404, Message ''User not found''))
      | Some u \<Rightarrow> (d, (200, ChatList (chatList d u e))))"

section \<open>Real-time hub\<close>





text \<open>
  The payload of \<^verbatim>\<open>send_message\<close>. The handler destructures \<^verbatim>\<open>chatId\<close>,
  \<^verbatim>\<open>sender\<close> and \<^verbatim>\<open>text\<close>; any other property the client puts in the object, such as
  the \<^verbatim>\<open>image\<close> its screens attach to a message, is carried by the payload and not read.
  The \<^verbatim>\<open>chatId\<close> is the string the client sent.
\<close>

record send_payload =
  p_chatId :: string
  p_sender :: string
  p_text :: string
  p_image :: "string option"

text \<open>What a socket handler can end with instead of returning: the rejection of
  \<^verbatim>\<open>Chat.findById\<close> for a value that is no ObjectId.\<close>

datatype handler_error = CastError

text \<open>
  \<^verbatim>\<open>send_message\<close> (lines 157-166). The first argument stands for the cast of a
  client value to an ObjectId that \<^verbatim>\<open>Chat.findById\<close> makes, \<open>None\<close> for a value that
  is no ObjectId: the query then rejects, and the handler, which has no
  \<^verbatim>\<open>try\<close>/\<^verbatim>\<open>catch\<close>, ends with that error before it has written or emitted
  anything. \<open>t_default\<close> is the clock when the pushed subdocument takes its default
  \<^verbatim>\<open>timestamp\<close> (\<^verbatim>\<open>Date.now\<close>), \<open>t_emit\<close> is the clock of \<^verbatim>\<open>new Date()\<close> in the
  emit, after the save. The emission goes to the room named by the client's string.
\<close>

definition send_message ::
  "(string \<Rightarrow> oid option) \<Rightarrow> db \<Rightarrow> instant \<Rightarrow> instant \<Rightarrow> send_payload
     \<Rightarrow> handler_error + db \<times> emission list" where
  "send_message cast d t_default t_emit p =
     (case cast (p_chatId p) of
        None \<Rightarrow> Inl CastError
      | Some i \<Rightarrow>
         (case Chat_findById (db_chats d) i of
            None \<Rightarrow> Inr (d, [])
          | Some c \<Rightarrow>
              let c' = c\<lparr>messages := messages c @
                          [\<lparr>msg_sender = p_sender p, msg_text = p_text p,
                            msg_timestamp = t_default\<rparr>]\<rparr>
              in Inr (d\<lparr>db_chats := Chat_save c' (db_chats d)\<rparr>,
                      [(ToRoom (p_chatId p),
                        ReceiveMessage (p_sender p) (p_text p) t_emit)])))"

text \<open>Lines 179-183: one pass of the linking loop, for the participant \<open>e\<close>.\<close>

fun link_user :: "oid \<Rightarrow> string \<Rightarrow> user list \<Rightarrow> user list" where
  "link_user i e [] = []"
| "link_user i e (u # us) =
     (if email u = e
      then (if i \<in> set (chats u) then u else u\<lparr>chats := chats u @ [i]\<rparr>) # us
      else u # link_user i e us)"

text \<open>Lines 178-184.\<close>

fun link_participants :: "oid \<Rightarrow> string list \<Rightarrow> user list \<Rightarrow> user list" where
  "link_participants i [] us = us"
| "link_participants i (e # es) us = link_participants i es (link_user i e us)"

text \<open>Lines 169-185: the chat found or created for the participant list.\<close>

definition findOrCreateChat :: "db \<Rightarrow> string list \<Rightarrow> db \<times> chat" where
  "findOrCreateChat d ps =
     (case find (chat_matches ps) (db_chats d) of
        Some existing \<Rightarrow> (d, existing)
      | None \<Rightarrow>
          let existing = \<lparr>chat_id = next_oid d, participants = ps, messages = []\<rparr>
          in (d\<lparr>db_users := link_participants (chat_id existing) ps (db_users d),
                db_chats := db_chats d @ [existing],
                next_oid := Suc (next_oid d)\<rparr>,
              existing))"

text \<open>Lines 187-202: the chat lists pushed to the participants' rooms.\<close>

fun fan_out :: "db \<Rightarrow> string list \<Rightarrow> emission list" where
  "fan_out d [] = []"
| "fan_out d (e # es) =
     (case User_findOne (db_users d) e of
        None \<Rightarrow> fan_out d es
      | Some u \<Rightarrow> (ToRoom e, ChatlistUpdated (chatList d u e)) # fan_out d es)"

text \<open>\<^verbatim>\<open>create_chat\<close> (lines 168-212), received on the connection \<open>socket\<close>.\<close>

definition create_chat :: "db \<Rightarrow> conn \<Rightarrow> string list \<Rightarrow> db \<times> emission list" where
  "create_chat d socket ps =
     (case findOrCreateChat d ps of
        (d', existing) \<Rightarrow>
          (d', fan_out d' ps @ [(ToSocket socket, ChatCreated (structuredChat existing))]))"

text \<open>
  The store invariant. Chat ids are distinct and below the next ObjectId. Users have
  distinct, non-empty emails and a non-empty stored password hash; the chat ids a user
  holds are below the next ObjectId, and a stored chat whose id a user holds has that
  user's email among its participants.
\<close>

definition wf_db :: "db \<Rightarrow> bool" where
  "wf_db d =
     (distinct (map chat_id (db_chats d))
      \<and> list_all (\<lambda>c. chat_id c < next_oid d) (db_chats d)
      \<and> distinct (map email (db_users d))
      \<and> list_all (\<lambda>u. email u \<noteq> [] \<and> password u \<noteq> []
                       \<and> list_all (\<lambda>i. i < next_oid d) (chats u)
                       \<and> list_all (\<lambda>c. chat_id c \<in> set (chats u)
                                         \<longrightarrow> email u \<in> set (participants c))
                                   (db_chats d))
                 (db_users d))"

text \<open>
  \<open>later d d'\<close>: the store \<open>d'\<close> is \<open>d\<close> after any number of requests that write to
  the store. A registration stores what \<^verbatim>\<open>bcrypt.hash\<close> returned, which is never the
  empty string.
\<close>

inductive later :: "db \<Rightarrow> db \<Rightarrow> bool" where
  later_refl: "later d d"
| later_register:
    "later d d1 \<Longrightarrow> bcrypt_hash pw 10 \<noteq> [] \<Longrightarrow> later d (fst (register bcrypt_hash d1 e pw))"
| later_send_message:
    "later d d1 \<Longrightarrow> send_message cast d1 t_default t_emit p = Inr (d2, out) \<Longrightarrow> later d d2"
| later_create_chat:
    "later d d1 \<Longrightarrow> later d (fst (create_chat d1 socket ps))"

section \<open>Summaries and events, classified\<close>



section \<open>Example values\<close>

definition alice :: string where "alice = ''a@x.com''"
definition bob :: string where "bob = ''b@x.com''"
definition carol :: string where "carol = ''c@x.com''"

text \<open>
  Stand-ins for \<^verbatim>\<open>bcrypt.hash\<close> and \<^verbatim>\<open>bcrypt.compare\<close>, to run the handlers on
  examples.
\<close>

definition toy_hash :: "string \<Rightarrow> nat \<Rightarrow> string" where
  "toy_hash pw cost = ''$2a$10$'' @ rev pw"

definition toy_compare :: "string \<Rightarrow> string \<Rightarrow> bool" where
  "toy_compare pw h = (h = toy_hash pw 10)"

text \<open>Alice registers.\<close>

definition db_a :: db where
  "db_a = fst (register toy_hash init_db alice ''pw'')"

text \<open>Alice opens a chat with Bob, who registers only afterwards.\<close>

definition db_late :: db where
  "db_late = fst (register toy_hash (fst (create_chat db_a 5 [alice, bob])) bob ''pw'')"

text \<open>Alice and Bob register, then Alice opens a chat with Bob.\<close>

definition db_two :: db where
  "db_two = fst (register toy_hash db_a bob ''pw'')"

definition db_ab :: db where
  "db_ab = fst (create_chat db_two 5 [alice, bob])"

text \<open>
  A stand-in for the cast to an ObjectId: a string of 24 hexadecimal digits is the
  ObjectId of that number, any other string is none.
\<close>

definition hex_digit :: "char \<Rightarrow> nat option" where
  "hex_digit c =
     (let n = (of_char c :: nat)
      in if 48 \<le> n \<and> n \<le> 57 then Some (n - 48)
         else if 97 \<le> n \<and> n \<le> 102 then Some (n - 87)
         else if 65 \<le> n \<and> n \<le> 70 then Some (n - 55)
         else None)"

fun hex_value :: "nat \<Rightarrow> string \<Rightarrow> nat option" where
  "hex_value acc [] = Some acc"
| "hex_value acc (c # cs) =
     (case hex_digit c of None \<Rightarrow> None | Some v \<Rightarrow> hex_value (16 * acc + v) cs)"

definition cast24 :: "string \<Rightarrow> oid option" where
  "cast24 s = (if length s = 24 then hex_value 0 s else None)"

definition chat0 :: string where
  "chat0 = ''000000000000000000000000''"

definition hi :: send_payload where
  "hi = \<lparr>p_chatId = chat0, p_sender = alice, p_text = ''hi'', p_image = None\<rparr>"

text \<open>The store after Alice's message \<open>hi\<close>, stored at the instant 1000.\<close>

definition db_sent :: db where
  "db_sent =
     db_ab\<lparr>db_chats := [\<lparr>chat_id = 0, participants = [alice, bob],
                            messages = [\<lparr>msg_sender = alice, msg_text = ''hi'',
                                         msg_timestamp = 1000\<rparr>]\<rparr>]\<rparr>"

text \<open>The token Alice is issued at the instant 5000.\<close>

definition alice_token :: part where
  "alice_token = Jwt JWT_SECRET \<lparr>c_email = Some alice, c_iat = 5, c_exp = Some 3605\<rparr>"

section \<open>Lists and queries\<close>

lemma find_append:
  "find P (xs @ ys) = (case find P xs of None \<Rightarrow> find P ys | Some x \<Rightarrow> Some x)"
  by (induction xs) auto

lemma find_Some_mem: "find P xs = Some x \<Longrightarrow> x \<in> set xs \<and> P x"
  by (induction xs) (auto split: if_splits)

lemma chat_matches_cong:
  "set qs = set ps \<Longrightarrow> length qs = length ps \<Longrightarrow> chat_matches qs = chat_matches ps"
  by (rule ext) (auto simp: chat_matches_def list_all_iff)

lemma chat_matches_length: "chat_matches ps c \<Longrightarrow> length (participants c) = length ps"
  by (simp add: chat_matches_def)

lemma chat_matches_set:
  assumes "chat_matches ps c" "distinct ps"
  shows "set (participants c) = set ps"
proof -
  have sub: "set ps \<subseteq> set (participants c)"
    using assms(1) by (auto simp: chat_matches_def list_all_iff)
  have "card (set (participants c)) \<le> length (participants c)"
    by (rule card_length)
  also have "\<dots> = card (set ps)"
    using assms by (simp add: chat_matches_def distinct_card)
  finally have "card (set (participants c)) \<le> card (set ps)" .
  with sub have "set ps = set (participants c)"
    by (intro card_seteq) simp_all
  then show ?thesis by simp
qed

lemma chat_matches_self:
  "ps \<noteq> [] \<Longrightarrow> chat_matches ps \<lparr>chat_id = i, participants = ps, messages = ms\<rparr>"
  by (simp add: chat_matches_def list_all_iff)

section \<open>Linking users to a chat\<close>

lemma link_user_email: "map email (link_user i e us) = map email us"
  by (induction us) auto

lemma link_participants_email: "map email (link_participants i ps us) = map email us"
  by (induction ps arbitrary: us) (auto simp: link_user_email)

lemma link_user_unregistered: "User_findOne us e = None \<Longrightarrow> link_user i e us = us"
  by (induction us) (auto simp: User_findOne_def split: if_splits)

text \<open>One pass changes at most the users of that email, by appending the chat id to a
  list that did not hold it.\<close>

lemma link_user_rel:
  "list_all2 (\<lambda>u u'. u' = u \<or> (email u = e \<and> i \<notin> set (chats u)
                                  \<and> u' = u\<lparr>chats := chats u @ [i]\<rparr>))
     us (link_user i e us)"
  by (induction us) (auto simp: list_all2_same)

lemma link_participants_rel:
  "list_all2 (\<lambda>u u'. u' = u \<or> (email u \<in> set ps \<and> i \<notin> set (chats u)
                                  \<and> u' = u\<lparr>chats := chats u @ [i]\<rparr>))
     us (link_participants i ps us)"
proof (induction ps arbitrary: us)
  case Nil
  then show ?case by (simp add: list_all2_same)
next
  case (Cons e es)
  have step: "list_all2 (\<lambda>u u'. u' = u \<or> (email u = e \<and> i \<notin> set (chats u)
                                  \<and> u' = u\<lparr>chats := chats u @ [i]\<rparr>))
     us (link_user i e us)"
    by (rule link_user_rel)
  have rest: "list_all2 (\<lambda>u u'. u' = u \<or> (email u \<in> set es \<and> i \<notin> set (chats u)
                                  \<and> u' = u\<lparr>chats := chats u @ [i]\<rparr>))
     (link_user i e us) (link_participants i es (link_user i e us))"
    by (rule Cons.IH)
  have "list_all2 (\<lambda>u u'. u' = u \<or> (email u \<in> set (e # es) \<and> i \<notin> set (chats u)
                                  \<and> u' = u\<lparr>chats := chats u @ [i]\<rparr>))
     us (link_participants i es (link_user i e us))"
    using _ step rest by (rule list_all2_trans) auto
  then show ?case by simp
qed

text \<open>A pass keeps the user found under an email, with at least the chats held before;
  the pass for that email makes the user hold the chat.\<close>

lemma link_user_keeps:
  "User_findOne us e = Some u \<Longrightarrow>
     \<exists>u'. User_findOne (link_user i e' us) e = Some u' \<and> set (chats u) \<subseteq> set (chats u')"
  by (induction us) (auto simp: User_findOne_def split: if_splits)

lemma link_user_links:
  "User_findOne us e = Some u \<Longrightarrow>
     \<exists>u'. User_findOne (link_user i e us) e = Some u' \<and> i \<in> set (chats u')"
  by (induction us) (auto simp: User_findOne_def split: if_splits)

lemma link_participants_keeps:
  "User_findOne us e = Some u \<Longrightarrow>
     \<exists>u'. User_findOne (link_participants i ps us) e = Some u'
          \<and> set (chats u) \<subseteq> set (chats u')"
proof (induction ps arbitrary: us u)
  case Nil
  then show ?case by simp
next
  case (Cons e' es)
  from link_user_keeps[OF Cons.prems, of i e']
  obtain u1 where u1: "User_findOne (link_user i e' us) e = Some u1"
    and s1: "set (chats u) \<subseteq> set (chats u1)" by blast
  from Cons.IH[OF u1]
  obtain u2 where "User_findOne (link_participants i es (link_user i e' us)) e = Some u2"
    and "set (chats u1) \<subseteq> set (chats u2)" by blast
  with s1 show ?case by auto
qed

lemma link_participants_links:
  "User_findOne us e = Some u \<Longrightarrow> e \<in> set ps \<Longrightarrow>
     \<exists>u'. User_findOne (link_participants i ps us) e = Some u' \<and> i \<in> set (chats u')"
proof (induction ps arbitrary: us u)
  case Nil
  then show ?case by simp
next
  case (Cons e' es)
  show ?case
  proof (cases "e' = e")
    case True
    from link_user_links[OF Cons.prems(1), of i]
    obtain u1 where u1: "User_findOne (link_user i e us) e = Some u1"
      and i1: "i \<in> set (chats u1)" by blast
    from link_participants_keeps[OF u1, of i es] i1 True show ?thesis by auto
  next
    case False
    from link_user_keeps[OF Cons.prems(1), of i e']
    obtain u1 where u1: "User_findOne (link_user i e' us) e = Some u1" by blast
    from Cons.IH[OF u1] Cons.prems(2) False show ?thesis by auto
  qed
qed

section \<open>Finding or creating a chat\<close>

lemma list_all2_set2:
  assumes "list_all2 P xs ys" "y \<in> set ys"
  shows "\<exists>x \<in> set xs. P x y"
proof -
  from assms(2) obtain n where "n < length ys" "ys ! n = y"
    by (auto simp: in_set_conv_nth)
  with assms(1) have p: "P (xs ! n) y" and "n < length xs"
    by (auto simp: list_all2_conv_all_nth)
  then have "xs ! n \<in> set xs" by simp
  with p show ?thesis by blast
qed

lemma foc_found:
  "find (chat_matches ps) (db_chats d) = Some c \<Longrightarrow> findOrCreateChat d ps = (d, c)"
  by (simp add: findOrCreateChat_def)

lemma foc_created:
  "find (chat_matches ps) (db_chats d) = None \<Longrightarrow>
     findOrCreateChat d ps =
       (d\<lparr>db_users := link_participants (next_oid d) ps (db_users d),
          db_chats := db_chats d @ [\<lparr>chat_id = next_oid d, participants = ps, messages = []\<rparr>],
          next_oid := Suc (next_oid d)\<rparr>,
        \<lparr>chat_id = next_oid d, participants = ps, messages = []\<rparr>)"
  by (simp add: findOrCreateChat_def Let_def)

lemma foc_result:
  assumes "findOrCreateChat d ps = (d', c)"
  shows "c \<in> set (db_chats d')" and "length (participants c) = length ps"
    and "\<exists>ext. db_chats d' = db_chats d @ ext"
    and "ps \<noteq> [] \<Longrightarrow> find (chat_matches ps) (db_chats d') = Some c"
proof -
  show "c \<in> set (db_chats d')"
    using assms
    by (auto simp: findOrCreateChat_def Let_def split: option.splits dest: find_Some_mem)
  show "length (participants c) = length ps"
    using assms
    by (auto simp: findOrCreateChat_def Let_def split: option.splits
             dest!: find_Some_mem chat_matches_length)
  show "\<exists>ext. db_chats d' = db_chats d @ ext"
    using assms by (auto simp: findOrCreateChat_def Let_def split: option.splits)
  show "find (chat_matches ps) (db_chats d') = Some c" if "ps \<noteq> []"
    using assms that
    by (auto simp: findOrCreateChat_def Let_def find_append chat_matches_self
             split: option.splits)
qed

lemma wf_db_foc:
  assumes "wf_db d"
  shows "wf_db (fst (findOrCreateChat d ps))"
proof (cases "find (chat_matches ps) (db_chats d)")
  case (Some c)
  with assms show ?thesis by (simp add: findOrCreateChat_def)
next
  case None
  let ?n = "next_oid d"
  let ?new = "\<lparr>chat_id = ?n, participants = ps, messages = []\<rparr>"
  let ?us = "link_participants ?n ps (db_users d)"
  have ids: "distinct (map chat_id (db_chats d))"
    and below: "\<forall>c \<in> set (db_chats d). chat_id c < ?n"
    and emails: "distinct (map email (db_users d))"
    and users: "\<forall>u \<in> set (db_users d). email u \<noteq> [] \<and> password u \<noteq> []
          \<and> (\<forall>i \<in> set (chats u). i < ?n)
          \<and> (\<forall>c \<in> set (db_chats d). chat_id c \<in> set (chats u)
                 \<longrightarrow> email u \<in> set (participants c))"
    using assms by (simp_all add: wf_db_def list_all_iff)
  have fresh: "?n \<notin> chat_id ` set (db_chats d)"
    using below by auto
  have u': "email u' \<noteq> [] \<and> password u' \<noteq> []
          \<and> (\<forall>i \<in> set (chats u'). i < Suc ?n)
          \<and> (\<forall>c \<in> set (db_chats d @ [?new]). chat_id c \<in> set (chats u')
                 \<longrightarrow> email u' \<in> set (participants c))"
    if "u' \<in> set ?us" for u'
  proof -
    from list_all2_set2[OF link_participants_rel that]
    obtain u where uin: "u \<in> set (db_users d)"
      and r: "u' = u \<or> (email u \<in> set ps \<and> ?n \<notin> set (chats u)
                          \<and> u' = u\<lparr>chats := chats u @ [?n]\<rparr>)"
      by blast
    have old: "email u \<noteq> [] \<and> password u \<noteq> []" "\<forall>i \<in> set (chats u). i < ?n"
      "\<forall>c \<in> set (db_chats d). chat_id c \<in> set (chats u) \<longrightarrow> email u \<in> set (participants c)"
      using users uin by auto
    have notn: "?n \<notin> set (chats u)"
      using old(2) by auto
    from r show ?thesis
    proof
      assume "u' = u"
      with old notn show ?thesis by (auto simp: less_Suc_eq)
    next
      assume a: "email u \<in> set ps \<and> ?n \<notin> set (chats u) \<and> u' = u\<lparr>chats := chats u @ [?n]\<rparr>"
      then have e: "email u' = email u" "password u' = password u"
        "set (chats u') = insert ?n (set (chats u))"
        by auto
      show ?thesis
        using old a below unfolding e by (auto simp: less_Suc_eq)
    qed
  qed
  have "distinct (map email ?us)"
    using emails by (simp add: link_participants_email)
  moreover have "distinct (map chat_id (db_chats d @ [?new]))"
    using ids fresh by simp
  moreover have "\<forall>c \<in> set (db_chats d @ [?new]). chat_id c < Suc ?n"
    using below by (auto simp: less_Suc_eq)
  ultimately show ?thesis
    using u' by (simp add: foc_created[OF None] wf_db_def list_all_iff)
qed

text \<open>
  For a non-empty participant list without repetitions, on a well-formed store,
  \<open>findOrCreateChat\<close> returns a chat whose participant set is exactly the requested
  one; a second call with the same list, or with any reordering of it, returns that same
  chat and leaves the store as it is; and a call with a strict superset of the
  participants returns a chat with another id.
\<close>

lemma findOrCreateChat_nonempty:
  assumes "wf_db d" and "ps \<noteq> []" and "distinct ps" and "distinct ps'"
    and "set ps \<subset> set ps'"
  shows "case findOrCreateChat d ps of (d1, c1) \<Rightarrow>
           findOrCreateChat d1 ps = (d1, c1)
           \<and> set (participants c1) = set ps
           \<and> (\<forall>qs. distinct qs \<and> set qs = set ps \<longrightarrow> findOrCreateChat d1 qs = (d1, c1))
           \<and> (case findOrCreateChat d1 ps' of (d3, c3) \<Rightarrow> chat_id c3 \<noteq> chat_id c1)"
proof -
  obtain d1 c1 where r1: "findOrCreateChat d ps = (d1, c1)"
    by (cases "findOrCreateChat d ps")
  obtain d3 c3 where r3: "findOrCreateChat d1 ps' = (d3, c3)"
    by (cases "findOrCreateChat d1 ps'")
  have f1: "find (chat_matches ps) (db_chats d1) = Some c1"
    using foc_result(4)[OF r1] assms(2) by simp
  have again: "findOrCreateChat d1 ps = (d1, c1)"
    using f1 by (rule foc_found)
  have m1: "chat_matches ps c1"
    using f1 by (auto dest: find_Some_mem)
  have exact: "set (participants c1) = set ps"
    using m1 assms(3) by (rule chat_matches_set)
  have perm: "findOrCreateChat d1 qs = (d1, c1)" if "distinct qs" "set qs = set ps" for qs
  proof -
    have "length qs = length ps"
      using that assms(3) by (metis distinct_card)
    then have "chat_matches qs = chat_matches ps"
      using that(2) by (intro chat_matches_cong)
    then show ?thesis
      using f1 by (simp add: foc_found)
  qed
  have "card (set ps) < card (set ps')"
    using assms(5) by (intro psubset_card_mono) simp_all
  then have len: "length ps < length ps'"
    using assms(3,4) by (simp add: distinct_card)
  have wf3: "wf_db d3"
    using wf_db_foc[OF wf_db_foc[OF assms(1), of ps], of ps'] r1 r3 by simp
  have in3: "c3 \<in> set (db_chats d3)" and len3: "length (participants c3) = length ps'"
    using foc_result(1,2)[OF r3] by simp_all
  have in1: "c1 \<in> set (db_chats d3)"
    using foc_result(1)[OF r1] foc_result(3)[OF r3] by auto
  have len1: "length (participants c1) = length ps"
    using foc_result(2)[OF r1] .
  have "c3 \<noteq> c1"
    using len len1 len3 by auto
  with wf3 in1 in3 have "chat_id c3 \<noteq> chat_id c1"
    by (auto simp: wf_db_def distinct_map inj_on_def)
  with again exact perm r1 r3 show ?thesis
    by simp
qed

text \<open>
  Claim C1, at the empty participant list. The filter matches no chat when the list is
  empty, so on every store the call creates a chat, and a second call creates another
  one, with the next id, instead of returning the first.
\<close>

theorem findOrCreateChat_empty:
  "findOrCreateChat d [] =
     (d\<lparr>db_chats := db_chats d @ [\<lparr>chat_id = next_oid d, participants = [], messages = []\<rparr>],
        next_oid := Suc (next_oid d)\<rparr>,
      \<lparr>chat_id = next_oid d, participants = [], messages = []\<rparr>)
   \<and> snd (findOrCreateChat (fst (findOrCreateChat d [])) []) =
       \<lparr>chat_id = Suc (next_oid d), participants = [], messages = []\<rparr>
   \<and> chat_id (snd (findOrCreateChat (fst (findOrCreateChat d [])) []))
       \<noteq> chat_id (snd (findOrCreateChat d []))"
proof -
  have none: "find (chat_matches []) cs = None" for cs
    by (simp add: find_None_iff chat_matches_def)
  show ?thesis
    by (simp add: foc_created[OF none])
qed

text \<open>On the empty store the two calls create the chats 0 and 1.\<close>

lemma findOrCreateChat_empty_example:
  "findOrCreateChat init_db [] =
     (\<lparr>db_users = [], db_chats = [\<lparr>chat_id = 0, participants = [], messages = []\<rparr>],
       next_oid = 1\<rparr>,
      \<lparr>chat_id = 0, participants = [], messages = []\<rparr>)
   \<and> findOrCreateChat (fst (findOrCreateChat init_db [])) [] =
     (\<lparr>db_users = [],
       db_chats = [\<lparr>chat_id = 0, participants = [], messages = []\<rparr>,
                   \<lparr>chat_id = 1, participants = [], messages = []\<rparr>],
       next_oid = 2\<rparr>,
      \<lparr>chat_id = 1, participants = [], messages = []\<rparr>)"
  by (simp add: findOrCreateChat_def init_db_def chat_matches_def Let_def)

text \<open>
  The filter compares the length of the stored list, not the size of its set: a request
  that repeats a participant matches a chat of as many distinct participants.
\<close>

lemma chat_matches_repetition:
  "chat_matches [alice, alice] \<lparr>chat_id = 0, participants = [alice, bob], messages = []\<rparr>"
  by (simp add: chat_matches_def)

section \<open>The example stores\<close>

lemma names_distinct [simp]:
  "alice \<noteq> bob" "bob \<noteq> alice" "alice \<noteq> carol" "carol \<noteq> alice"
  "bob \<noteq> carol" "carol \<noteq> bob" "alice \<noteq> []" "bob \<noteq> []" "carol \<noteq> []"
  by (simp_all add: alice_def bob_def carol_def)

lemma toy_hash_nonempty [simp]: "toy_hash pw n \<noteq> []"
  by (simp add: toy_hash_def)

lemma db_a_eq:
  "db_a = \<lparr>db_users = [\<lparr>email = alice, password = toy_hash ''pw'' 10, chats = []\<rparr>],
           db_chats = [], next_oid = 0\<rparr>"
  by (simp add: db_a_def register_def init_db_def User_findOne_def Let_def)

lemma create_chat_db_a:
  "create_chat db_a 5 [alice, bob] =
     (\<lparr>db_users = [\<lparr>email = alice, password = toy_hash ''pw'' 10, chats = [0]\<rparr>],
       db_chats = [\<lparr>chat_id = 0, participants = [alice, bob], messages = []\<rparr>],
       next_oid = 1\<rparr>,
      [(ToRoom alice,
        ChatlistUpdated [\<lparr>s_chatId = 0, s_participants = [bob], s_lastMessage = Placeholder\<rparr>]),
       (ToSocket 5,
        ChatCreated \<lparr>s_chatId = 0, s_participants = [alice, bob],
                     s_lastMessage = Placeholder\<rparr>)])"
  by (simp add: db_a_eq create_chat_def findOrCreateChat_def Let_def User_findOne_def
                chatList_def Chat_find_in_def lastMessage_def structuredChat_def
                chat_matches_def)

lemma db_late_eq:
  "db_late =
     \<lparr>db_users = [\<lparr>email = alice, password = toy_hash ''pw'' 10, chats = [0]\<rparr>,
                  \<lparr>email = bob, password = toy_hash ''pw'' 10, chats = []\<rparr>],
      db_chats = [\<lparr>chat_id = 0, participants = [alice, bob], messages = []\<rparr>],
      next_oid = 1\<rparr>"
  by (simp add: db_late_def create_chat_db_a register_def User_findOne_def Let_def)

lemma db_two_eq:
  "db_two =
     \<lparr>db_users = [\<lparr>email = alice, password = toy_hash ''pw'' 10, chats = []\<rparr>,
                  \<lparr>email = bob, password = toy_hash ''pw'' 10, chats = []\<rparr>],
      db_chats = [], next_oid = 0\<rparr>"
  by (simp add: db_two_def db_a_eq register_def User_findOne_def Let_def)

lemma foc_db_two:
  "findOrCreateChat db_two [alice, bob] =
     (\<lparr>db_users = [\<lparr>email = alice, password = toy_hash ''pw'' 10, chats = [0]\<rparr>,
                   \<lparr>email = bob, password = toy_hash ''pw'' 10, chats = [0]\<rparr>],
       db_chats = [\<lparr>chat_id = 0, participants = [alice, bob], messages = []\<rparr>],
       next_oid = 1\<rparr>,
      \<lparr>chat_id = 0, participants = [alice, bob], messages = []\<rparr>)"
  by (simp add: db_two_eq findOrCreateChat_def Let_def chat_matches_def)

lemma db_ab_eq:
  "db_ab =
     \<lparr>db_users = [\<lparr>email = alice, password = toy_hash ''pw'' 10, chats = [0]\<rparr>,
                  \<lparr>email = bob, password = toy_hash ''pw'' 10, chats = [0]\<rparr>],
      db_chats = [\<lparr>chat_id = 0, participants = [alice, bob], messages = []\<rparr>],
      next_oid = 1\<rparr>"
  by (simp add: db_ab_def create_chat_def foc_db_two)

lemma db_ab_wf: "wf_db db_ab"
  by (simp add: wf_db_def db_ab_eq)

lemma db_ab_alice:
  "User_findOne (db_users db_ab) alice =
     Some \<lparr>email = alice, password = toy_hash ''pw'' 10, chats = [0]\<rparr>"
  by (simp add: db_ab_eq User_findOne_def)


lemma db_ab_carol: "User_findOne (db_users db_ab) carol = None"
  by (simp add: db_ab_eq User_findOne_def)

lemma cast24_chat0: "cast24 (p_chatId hi) = Some 0"
  by (simp add: hi_def cast24_def chat0_def hex_digit_def)

lemma cast24_nope: "cast24 ''nope'' = None"
  by (simp add: cast24_def)

lemma db_ab_chat:
  "Chat_findById (db_chats db_ab) 0 =
     Some \<lparr>chat_id = 0, participants = [alice, bob], messages = []\<rparr>"
  by (simp add: db_ab_eq Chat_findById_def)

section \<open>Sending a message\<close>

lemma Chat_findById_None_iff: "Chat_findById cs i = None \<longleftrightarrow> i \<notin> chat_id ` set cs"
  by (auto simp: Chat_findById_def find_None_iff)

lemma Chat_findById_id: "Chat_findById cs i = Some c \<Longrightarrow> chat_id c = i \<and> c \<in> set cs"
  by (auto simp: Chat_findById_def dest: find_Some_mem)



lemma lastMessage_append [simp]: "lastMessage (c\<lparr>messages := ms @ [m]\<rparr>) = LastMsg m"
  by (simp add: lastMessage_def)

lemma lastMessage_last:
  "lastMessage c = (if messages c = [] then Placeholder else LastMsg (last (messages c)))"
  by (simp add: lastMessage_def last_conv_nth)

lemma send_message_found:
  "cast (p_chatId p) = Some i \<Longrightarrow> Chat_findById (db_chats d) i = Some c \<Longrightarrow>
     send_message cast d t_default t_emit p =
       Inr (d\<lparr>db_chats := Chat_save
                 (c\<lparr>messages := messages c @
                      [\<lparr>msg_sender = p_sender p, msg_text = p_text p,
                        msg_timestamp = t_default\<rparr>]\<rparr>) (db_chats d)\<rparr>,
            [(ToRoom (p_chatId p), ReceiveMessage (p_sender p) (p_text p) t_emit)])"
  by (simp add: send_message_def Let_def)

lemma send_hi:
  "send_message cast24 db_ab 1000 1005 hi =
     Inr (db_ab\<lparr>db_chats := [\<lparr>chat_id = 0, participants = [alice, bob],
                                messages = [\<lparr>msg_sender = alice, msg_text = ''hi'',
                                             msg_timestamp = 1000\<rparr>]\<rparr>]\<rparr>,
          [(ToRoom chat0, ReceiveMessage alice ''hi'' 1005)])"
  by (simp add: send_message_found[where cast = cast24 and p = hi, OF cast24_chat0 db_ab_chat])
     (simp add: db_ab_eq hi_def)

lemma send_hi_sent:
  "send_message cast24 db_ab 1000 1005 hi =
     Inr (db_sent, [(ToRoom chat0, ReceiveMessage alice ''hi'' 1005)])"
  by (simp add: send_hi db_sent_def)

lemma later_sent: "later db_ab db_sent"
  by (rule later_send_message[OF later_refl send_hi_sent])

text \<open>
  Claim C2, at a chat id that is no ObjectId. When the id is an ObjectId that no stored
  chat has, \<^verbatim>\<open>send_message\<close> returns with the store as it was and nothing emitted.
  When the client's string is no ObjectId, the lookup rejects and the handler ends with
  that error, uncaught, instead of returning.
\<close>

theorem send_message_unknown_chat:
  "(cast (p_chatId p) = None \<longrightarrow> send_message cast d t_default t_emit p = Inl CastError)
   \<and> (cast (p_chatId p) = Some i \<and> i \<notin> chat_id ` set (db_chats d) \<longrightarrow>
        send_message cast d t_default t_emit p = Inr (d, []))"
  by (auto simp: send_message_def Chat_findById_None_iff[symmetric])

theorem send_message_unknown_chat_witness:
  "cast24 (p_chatId (hi\<lparr>p_chatId := ''nope''\<rparr>)) = None
   \<and> send_message cast24 db_ab 1000 1005 (hi\<lparr>p_chatId := ''nope''\<rparr>) = Inl CastError
   \<and> (cast24 (p_chatId (hi\<lparr>p_chatId := ''000000000000000000000007''\<rparr>)) = Some 7
      \<and> 7 \<notin> chat_id ` set (db_chats db_ab))
   \<and> send_message cast24 db_ab 1000 1005 (hi\<lparr>p_chatId := ''000000000000000000000007''\<rparr>) =
       Inr (db_ab, [])"
proof -
  have h1: "cast24 (p_chatId (hi\<lparr>p_chatId := ''nope''\<rparr>)) = None"
    by (simp add: cast24_nope)
  have h2: "cast24 (p_chatId (hi\<lparr>p_chatId := ''000000000000000000000007''\<rparr>)) = Some 7
      \<and> 7 \<notin> chat_id ` set (db_chats db_ab)"
    by (simp add: cast24_def hex_digit_def db_ab_eq)
  note a = send_message_unknown_chat[where cast = cast24 and d = db_ab and t_default = 1000
      and t_emit = 1005 and p = "hi\<lparr>p_chatId := ''nope''\<rparr>", THEN conjunct1, THEN mp, OF h1]
  note b = send_message_unknown_chat[where cast = cast24 and d = db_ab and t_default = 1000
      and t_emit = 1005 and p = "hi\<lparr>p_chatId := ''000000000000000000000007''\<rparr>" and i = 7,
      THEN conjunct2, THEN mp, OF h2]
  show ?thesis
    by (intro conjI) (rule h1 a h2[THEN conjunct1] h2[THEN conjunct2] b)+
qed




text \<open>
  Claim C9, as the code has it. The handler never reads an image: whatever image the
  payload carries, the store and the emissions are the ones of the same payload without
  it, and a stored message has a sender, a text and a timestamp.
\<close>

theorem send_message_ignores_image:
  "send_message cast d t_default t_emit (p\<lparr>p_image := img\<rparr>) =
     send_message cast d t_default t_emit p"
  by (simp add: send_message_def Let_def split: option.splits)

text \<open>
  Claim C9 fails for a payload with an image: the message stored is the one stored
  without the image, and holds a sender, a text and a timestamp only.
\<close>

theorem send_message_image_counterexample:
  "send_message cast24 db_ab 1000 1005 (hi\<lparr>p_image := Some ''file:///photo.jpg''\<rparr>) =
     Inr (db_ab\<lparr>db_chats := [\<lparr>chat_id = 0, participants = [alice, bob],
                                messages = [\<lparr>msg_sender = alice, msg_text = ''hi'',
                                             msg_timestamp = 1000\<rparr>]\<rparr>]\<rparr>,
          [(ToRoom chat0, ReceiveMessage alice ''hi'' 1005)])
   \<and> send_message cast24 db_ab 1000 1005 (hi\<lparr>p_image := Some ''file:///photo.jpg''\<rparr>) =
       send_message cast24 db_ab 1000 1005 hi"
proof -
  let ?p = "hi\<lparr>p_image := Some ''file:///photo.jpg''\<rparr>"
  have c: "cast24 (p_chatId ?p) = Some 0"
    using cast24_chat0 by simp
  have "send_message cast24 db_ab 1000 1005 ?p =
     Inr (db_ab\<lparr>db_chats := [\<lparr>chat_id = 0, participants = [alice, bob],
                                messages = [\<lparr>msg_sender = alice, msg_text = ''hi'',
                                             msg_timestamp = 1000\<rparr>]\<rparr>]\<rparr>,
          [(ToRoom chat0, ReceiveMessage alice ''hi'' 1005)])"
    by (simp add: send_message_found[where cast = cast24 and p = ?p, OF c db_ab_chat])
       (simp add: db_ab_eq hi_def)
  then show ?thesis
    by (simp add: send_hi)
qed

section \<open>The chat list\<close>

lemma Chat_save_mem_id:
  "distinct (map chat_id cs) \<Longrightarrow> x \<in> set (Chat_save c' cs) \<Longrightarrow> chat_id x = chat_id c'
   \<Longrightarrow> x = c'"
proof (induction cs)
  case Nil
  then show ?case by simp
next
  case (Cons a cs)
  show ?case
  proof (cases "chat_id a = chat_id c'")
    case True
    with Cons.prems have "x = c' \<or> x \<in> set cs" by auto
    moreover have "chat_id c' \<notin> chat_id ` set cs"
      using Cons.prems(1) True by auto
    ultimately show ?thesis
      using Cons.prems(3) by (metis imageI)
  next
    case False
    with Cons.prems have "x = a \<or> x \<in> set (Chat_save c' cs)" by auto
    with False Cons show ?thesis by auto
  qed
qed

lemma Chat_save_mem:
  "chat_id c' \<in> chat_id ` set cs \<Longrightarrow> c' \<in> set (Chat_save c' cs)"
  by (induction cs) auto

lemma User_findOne_email: "User_findOne us e = Some u \<Longrightarrow> email u = e \<and> u \<in> set us"
  by (auto simp: User_findOne_def dest: find_Some_mem)

lemma chatList_ids:
  "map s_chatId (chatList d u e) = filter (\<lambda>i. i \<in> set (chats u)) (map chat_id (db_chats d))"
  by (simp add: chatList_def Chat_find_in_def filter_map comp_def)

lemma chatList_mem:
  "s \<in> set (chatList d u e) \<longleftrightarrow>
     (\<exists>c \<in> set (db_chats d). chat_id c \<in> set (chats u)
        \<and> s = \<lparr>s_chatId = chat_id c, s_participants = filter (\<lambda>p. p \<noteq> e) (participants c),
                s_lastMessage = lastMessage c\<rparr>)"
  by (auto simp: chatList_def Chat_find_in_def)

lemma Chat_save_shape:
  "Chat_findById cs i = Some c \<Longrightarrow>
     map (\<lambda>x. (chat_id x, participants x)) (Chat_save (c\<lparr>messages := ms\<rparr>) cs) =
     map (\<lambda>x. (chat_id x, participants x)) cs"
  by (induction cs) (auto simp: Chat_findById_def split: if_splits dest: find_Some_mem)

lemma User_findOne_append:
  "User_findOne us e = Some u \<Longrightarrow> User_findOne (us @ vs) e = Some u"
  by (simp add: User_findOne_def find_append)

text \<open>A user who holds a chat keeps holding it, and the chat keeps its id and its
  participants, whatever is written to the store later.\<close>

lemma later_listed:
  assumes "later d d'"
    and "User_findOne (db_users d) e = Some u" and "i \<in> set (chats u)"
    and "(i, ps) \<in> set (map (\<lambda>c. (chat_id c, participants c)) (db_chats d))"
  shows "\<exists>u'. User_findOne (db_users d') e = Some u' \<and> i \<in> set (chats u')
           \<and> (i, ps) \<in> set (map (\<lambda>c. (chat_id c, participants c)) (db_chats d'))"
  using assms
proof (induction rule: later.induct)
  case (later_refl d)
  then show ?case by simp
next
  case (later_register d d1 bcrypt_hash pw e')
  from later_register.IH[OF later_register.prems]
  obtain u1 where u1: "User_findOne (db_users d1) e = Some u1" "i \<in> set (chats u1)"
    and c1: "(i, ps) \<in> set (map (\<lambda>c. (chat_id c, participants c)) (db_chats d1))"
    by blast
  show ?case
    using u1 c1
    by (auto simp: register_def Let_def User_findOne_append split: option.splits)
next
  case (later_send_message d d1 cast t_default t_emit p d2 out)
  from later_send_message.IH[OF later_send_message.prems]
  obtain u1 where u1: "User_findOne (db_users d1) e = Some u1" "i \<in> set (chats u1)"
    and c1: "(i, ps) \<in> set (map (\<lambda>c. (chat_id c, participants c)) (db_chats d1))"
    by blast
  from later_send_message.hyps(2)
  have "db_users d2 = db_users d1
      \<and> map (\<lambda>c. (chat_id c, participants c)) (db_chats d2)
          = map (\<lambda>c. (chat_id c, participants c)) (db_chats d1)"
    by (auto simp: send_message_def Let_def Chat_save_shape split: option.splits)
  with u1 c1 show ?case by simp
next
  case (later_create_chat d d1 socket ps')
  from later_create_chat.IH[OF later_create_chat.prems]
  obtain u1 where u1: "User_findOne (db_users d1) e = Some u1" "i \<in> set (chats u1)"
    and c1: "(i, ps) \<in> set (map (\<lambda>c. (chat_id c, participants c)) (db_chats d1))"
    by blast
  have st: "fst (create_chat d1 socket ps') = fst (findOrCreateChat d1 ps')"
    by (cases "findOrCreateChat d1 ps'") (simp add: create_chat_def)
  show ?case
  proof (cases "find (chat_matches ps') (db_chats d1)")
    case (Some c)
    then show ?thesis
      using u1 c1 by (simp add: st foc_found)
  next
    case None
    from link_participants_keeps[OF u1(1), of "next_oid d1" ps']
    obtain u2 where "User_findOne (link_participants (next_oid d1) ps' (db_users d1)) e = Some u2"
      and "set (chats u1) \<subseteq> set (chats u2)" by blast
    then show ?thesis
      using u1(2) c1 by (auto simp: st foc_created[OF None])
  qed
qed

text \<open>The user registered when a chat is created with that email holds the chat.\<close>

lemma create_chat_links:
  assumes "User_findOne (db_users d) e = Some u" and "e \<in> set ps"
    and "find (chat_matches ps) (db_chats d) = None"
  shows "\<exists>u'. User_findOne (db_users (fst (create_chat d socket ps))) e = Some u'
           \<and> next_oid d \<in> set (chats u')"
    and "(next_oid d, ps) \<in> set (map (\<lambda>c. (chat_id c, participants c))
                                      (db_chats (fst (create_chat d socket ps))))"
  using link_participants_links[OF assms(1,2), of "next_oid d"]
  by (simp_all add: create_chat_def foc_created[OF assms(3)])

lemma wf_db_participant:
  assumes "wf_db d" and "User_findOne (db_users d) e = Some u"
    and "c \<in> set (db_chats d)" and "chat_id c \<in> set (chats u)"
  shows "e \<in> set (participants c)"
  using assms User_findOne_email[OF assms(2)]
  by (auto simp: wf_db_def list_all_iff)

text \<open>
  Claim C4, as the code has it. \<^verbatim>\<open>GET /chatlist\<close> answers 404 when no user has the
  email. Otherwise it answers with one summary for each stored chat whose id is in the
  user's \<^verbatim>\<open>chats\<close> list, in store order; on a well-formed store each of these is a
  chat the user participates in; the summary's participants are the chat's without the
  email, and its last message is the chat's last message, or the placeholder when the
  chat has none. After \<^verbatim>\<open>send_message\<close> to such a chat of a well-formed store, the
  summary of that chat shows the message just appended. And a chat that
  \<^verbatim>\<open>create_chat\<close> creates while a user with the email of one of its participants is
  registered is in that user's list in every later store.
\<close>

theorem chatlist_summaries:
  "(User_findOne (db_users d) e = None \<longrightarrow>
      chatlist d e = (d, (404, Message ''User not found'')))
   \<and> (User_findOne (db_users d) e = Some u \<longrightarrow>
        chatlist d e = (d, (200, ChatList (chatList d u e)))
        \<and> map s_chatId (chatList d u e) =
            filter (\<lambda>i. i \<in> set (chats u)) (map chat_id (db_chats d))
        \<and> (\<forall>c \<in> set (db_chats d). chat_id c \<in> set (chats u) \<longrightarrow>
             (\<exists>s \<in> set (chatList d u e). s_chatId s = chat_id c))
        \<and> (\<forall>s \<in> set (chatList d u e). \<exists>c \<in> set (db_chats d).
             chat_id c \<in> set (chats u) \<and> (wf_db d \<longrightarrow> e \<in> set (participants c))
             \<and> s_chatId s = chat_id c
             \<and> set (s_participants s) = set (participants c) - {e}
             \<and> s_lastMessage s =
                 (if messages c = [] then Placeholder else LastMsg (last (messages c))))
        \<and> (wf_db d \<and> cast (p_chatId p) = Some i \<and> Chat_findById (db_chats d) i = Some c
            \<and> i \<in> set (chats u) \<longrightarrow>
             (\<exists>d' out. send_message cast d t_default t_emit p = Inr (d', out)
                \<and> chatlist d' e = (d', (200, ChatList (chatList d' u e)))
                \<and> (\<exists>s \<in> set (chatList d' u e). s_chatId s = i)
                \<and> (\<forall>s \<in> set (chatList d' u e). s_chatId s = i \<longrightarrow>
                     s_lastMessage s =
                       LastMsg \<lparr>msg_sender = p_sender p, msg_text = p_text p,
                                msg_timestamp = t_default\<rparr>))))
   \<and> (User_findOne (db_users d0) e \<noteq> None \<and> e \<in> set ps
      \<and> find (chat_matches ps) (db_chats d0) = None
      \<and> later (fst (create_chat d0 socket ps)) d \<longrightarrow>
        (\<exists>u'. User_findOne (db_users d) e = Some u'
           \<and> chatlist d e = (d, (200, ChatList (chatList d u' e)))
           \<and> (\<exists>s \<in> set (chatList d u' e).
                s_chatId s = next_oid d0 \<and> s_participants s = filter (\<lambda>p. p \<noteq> e) ps)))"
proof (intro conjI impI)
  assume "User_findOne (db_users d) e = None"
  then show "chatlist d e = (d, (404, Message ''User not found''))"
    by (simp add: chatlist_def)
next
  assume "User_findOne (db_users d) e = Some u"
  then show "chatlist d e = (d, (200, ChatList (chatList d u e)))"
    by (simp add: chatlist_def)
next
  show "map s_chatId (chatList d u e) =
          filter (\<lambda>i. i \<in> set (chats u)) (map chat_id (db_chats d))"
    by (rule chatList_ids)
next
  show "\<forall>c \<in> set (db_chats d). chat_id c \<in> set (chats u) \<longrightarrow>
          (\<exists>s \<in> set (chatList d u e). s_chatId s = chat_id c)"
    by (auto simp: chatList_def Chat_find_in_def)
next
  assume u: "User_findOne (db_users d) e = Some u"
  show "\<forall>s \<in> set (chatList d u e). \<exists>c \<in> set (db_chats d).
          chat_id c \<in> set (chats u) \<and> (wf_db d \<longrightarrow> e \<in> set (participants c))
          \<and> s_chatId s = chat_id c
          \<and> set (s_participants s) = set (participants c) - {e}
          \<and> s_lastMessage s =
              (if messages c = [] then Placeholder else LastMsg (last (messages c)))"
  proof
    fix s assume "s \<in> set (chatList d u e)"
    then obtain c where c: "c \<in> set (db_chats d)" "chat_id c \<in> set (chats u)"
      and s: "s = \<lparr>s_chatId = chat_id c, s_participants = filter (\<lambda>p. p \<noteq> e) (participants c),
                s_lastMessage = lastMessage c\<rparr>"
      unfolding chatList_mem by blast
    have "set (s_participants s) = set (participants c) - {e}"
      unfolding s by auto
    moreover have "s_lastMessage s =
        (if messages c = [] then Placeholder else LastMsg (last (messages c)))"
      unfolding s by (simp add: lastMessage_last)
    moreover have "wf_db d \<longrightarrow> e \<in> set (participants c)"
      using wf_db_participant[OF _ u c] by blast
    ultimately show "\<exists>c \<in> set (db_chats d).
          chat_id c \<in> set (chats u) \<and> (wf_db d \<longrightarrow> e \<in> set (participants c))
          \<and> s_chatId s = chat_id c
          \<and> set (s_participants s) = set (participants c) - {e}
          \<and> s_lastMessage s =
              (if messages c = [] then Placeholder else LastMsg (last (messages c)))"
      using c s by auto
  qed
next
  let ?m = "\<lparr>msg_sender = p_sender p, msg_text = p_text p, msg_timestamp = t_default\<rparr>"
  let ?c' = "c\<lparr>messages := messages c @ [?m]\<rparr>"
  let ?d' = "d\<lparr>db_chats := Chat_save ?c' (db_chats d)\<rparr>"
  assume u: "User_findOne (db_users d) e = Some u"
    and h: "wf_db d \<and> cast (p_chatId p) = Some i \<and> Chat_findById (db_chats d) i = Some c
           \<and> i \<in> set (chats u)"
  have cid: "chat_id c = i" and cin: "c \<in> set (db_chats d)"
    using Chat_findById_id[of "db_chats d" i c] h by simp_all
  have r: "send_message cast d t_default t_emit p =
      Inr (?d', [(ToRoom (p_chatId p), ReceiveMessage (p_sender p) (p_text p) t_emit)])"
    using h by (simp add: send_message_found[where cast = cast and p = p])
  have u': "User_findOne (db_users ?d') e = Some u"
    using u by simp
  have l: "chatlist ?d' e = (?d', (200, ChatList (chatList ?d' u e)))"
    using u' by (simp add: chatlist_def)
  have "chat_id ?c' \<in> chat_id ` set (db_chats d)"
    using cin cid by force
  then have "?c' \<in> set (db_chats ?d')"
    by (simp add: Chat_save_mem)
  then have "\<lparr>s_chatId = chat_id ?c',
               s_participants = filter (\<lambda>p. p \<noteq> e) (participants ?c'),
               s_lastMessage = lastMessage ?c'\<rparr> \<in> set (chatList ?d' u e)"
    unfolding chatList_mem using h cid by (intro bexI[of _ ?c']) simp_all
  then have ex: "\<exists>s \<in> set (chatList ?d' u e). s_chatId s = i"
    by (rule rev_bexI) (simp add: cid)
  have un: "\<forall>s \<in> set (chatList ?d' u e). s_chatId s = i \<longrightarrow> s_lastMessage s = LastMsg ?m"
  proof (intro ballI impI)
    fix s assume sin: "s \<in> set (chatList ?d' u e)" and sid: "s_chatId s = i"
    from sin obtain x where xin: "x \<in> set (db_chats ?d')"
      and sx: "s = \<lparr>s_chatId = chat_id x,
                    s_participants = filter (\<lambda>p. p \<noteq> e) (participants x),
                    s_lastMessage = lastMessage x\<rparr>"
      by (auto simp: chatList_mem)
    have x: "x \<in> set (Chat_save ?c' (db_chats d))" "chat_id x = chat_id ?c'"
      using xin sid sx cid by simp_all
    have "distinct (map chat_id (db_chats d))"
      using h by (simp add: wf_db_def)
    then have "x = ?c'"
      using x by (rule Chat_save_mem_id)
    then show "s_lastMessage s = LastMsg ?m"
      using sx by simp
  qed
  show "\<exists>d' out. send_message cast d t_default t_emit p = Inr (d', out)
                \<and> chatlist d' e = (d', (200, ChatList (chatList d' u e)))
                \<and> (\<exists>s \<in> set (chatList d' u e). s_chatId s = i)
                \<and> (\<forall>s \<in> set (chatList d' u e). s_chatId s = i \<longrightarrow>
                     s_lastMessage s = LastMsg ?m)"
    using r l ex un by blast
next
  assume h: "User_findOne (db_users d0) e \<noteq> None \<and> e \<in> set ps
      \<and> find (chat_matches ps) (db_chats d0) = None
      \<and> later (fst (create_chat d0 socket ps)) d"
  then obtain u0 where u0: "User_findOne (db_users d0) e = Some u0"
    by auto
  let ?d1 = "fst (create_chat d0 socket ps)"
  from h have e_in: "e \<in> set ps" and nf: "find (chat_matches ps) (db_chats d0) = None"
    and lt: "later ?d1 d"
    by simp_all
  from create_chat_links[OF u0 e_in nf, of socket]
  obtain u1 where u1: "User_findOne (db_users ?d1) e = Some u1"
    and i1: "next_oid d0 \<in> set (chats u1)"
    and c1: "(next_oid d0, ps) \<in> set (map (\<lambda>c. (chat_id c, participants c)) (db_chats ?d1))"
    by blast
  from later_listed[OF lt u1 i1 c1]
  obtain u' where u': "User_findOne (db_users d) e = Some u'"
    and i': "next_oid d0 \<in> set (chats u')"
    and c': "(next_oid d0, ps) \<in> set (map (\<lambda>c. (chat_id c, participants c)) (db_chats d))"
    by blast
  from c' obtain c where c: "c \<in> set (db_chats d)" "chat_id c = next_oid d0"
    "participants c = ps"
    by auto
  have "\<lparr>s_chatId = chat_id c, s_participants = filter (\<lambda>p. p \<noteq> e) (participants c),
         s_lastMessage = lastMessage c\<rparr> \<in> set (chatList d u' e)"
    unfolding chatList_mem using c i' by (intro bexI[of _ c]) simp_all
  then have "\<exists>s \<in> set (chatList d u' e).
      s_chatId s = next_oid d0 \<and> s_participants s = filter (\<lambda>p. p \<noteq> e) ps"
    by (rule rev_bexI) (simp add: c)
  moreover have "chatlist d e = (d, (200, ChatList (chatList d u' e)))"
    using u' by (simp add: chatlist_def)
  ultimately show "\<exists>u'. User_findOne (db_users d) e = Some u'
           \<and> chatlist d e = (d, (200, ChatList (chatList d u' e)))
           \<and> (\<exists>s \<in> set (chatList d u' e).
                s_chatId s = next_oid d0 \<and> s_participants s = filter (\<lambda>p. p \<noteq> e) ps)"
    using u' by blast
qed

theorem chatlist_summaries_witness:
  "User_findOne (db_users db_ab) carol = None
   \<and> chatlist db_ab carol = (db_ab, (404, Message ''User not found''))
   \<and> User_findOne (db_users db_ab) alice =
       Some \<lparr>email = alice, password = toy_hash ''pw'' 10, chats = [0]\<rparr>
   \<and> chatlist db_ab alice =
       (db_ab, (200, ChatList [\<lparr>s_chatId = 0, s_participants = [bob],
                               s_lastMessage = Placeholder\<rparr>]))
   \<and> (wf_db db_ab \<and> cast24 (p_chatId hi) = Some 0
      \<and> Chat_findById (db_chats db_ab) 0 =
          Some \<lparr>chat_id = 0, participants = [alice, bob], messages = []\<rparr>
      \<and> 0 \<in> set (chats \<lparr>email = alice, password = toy_hash ''pw'' 10, chats = [0]\<rparr>))
   \<and> send_message cast24 db_ab 1000 1005 hi =
       Inr (db_sent, [(ToRoom chat0, ReceiveMessage alice ''hi'' 1005)])
   \<and> chatlist db_sent alice =
       (db_sent,
        (200, ChatList [\<lparr>s_chatId = 0, s_participants = [bob],
                         s_lastMessage = LastMsg \<lparr>msg_sender = alice, msg_text = ''hi'',
                                                  msg_timestamp = 1000\<rparr>\<rparr>]))
   \<and> (User_findOne (db_users db_two) bob \<noteq> None \<and> bob \<in> set [alice, bob]
      \<and> find (chat_matches [alice, bob]) (db_chats db_two) = None
      \<and> later (fst (create_chat db_two 5 [alice, bob])) db_sent)
   \<and> (\<exists>u'. User_findOne (db_users db_sent) bob = Some u'
         \<and> chatlist db_sent bob = (db_sent, (200, ChatList (chatList db_sent u' bob)))
         \<and> (\<exists>s \<in> set (chatList db_sent u' bob).
              s_chatId s = next_oid db_two
              \<and> s_participants s = filter (\<lambda>p. p \<noteq> bob) [alice, bob]))"
proof -
  let ?u = "\<lparr>email = alice, password = toy_hash ''pw'' 10, chats = [0]\<rparr>"
  let ?c = "\<lparr>chat_id = 0, participants = [alice, bob], messages = []\<rparr>"
  have h3: "wf_db db_ab \<and> cast24 (p_chatId hi) = Some 0
      \<and> Chat_findById (db_chats db_ab) 0 = Some ?c \<and> 0 \<in> set (chats ?u)"
    using db_ab_wf cast24_chat0 db_ab_chat by simp
  have h4: "User_findOne (db_users db_two) bob \<noteq> None \<and> bob \<in> set [alice, bob]
      \<and> find (chat_matches [alice, bob]) (db_chats db_two) = None
      \<and> later (fst (create_chat db_two 5 [alice, bob])) db_sent"
    using later_sent by (simp add: db_ab_def) (simp add: db_two_eq User_findOne_def)
  note none = chatlist_summaries[where d = db_ab and e = carol, THEN conjunct1, THEN mp,
      OF db_ab_carol]
  note some = chatlist_summaries[where d = db_ab and e = alice and u = ?u and p = hi
      and c = ?c and i = 0 and cast = cast24 and t_default = 1000 and t_emit = 1005,
      THEN conjunct2, THEN conjunct1, THEN mp, OF db_ab_alice]
  have l: "chatList db_ab ?u alice =
      [\<lparr>s_chatId = 0, s_participants = [bob], s_lastMessage = Placeholder\<rparr>]"
    by (simp add: chatList_def Chat_find_in_def lastMessage_def db_ab_eq)
  have r2: "chatlist db_ab alice =
       (db_ab, (200, ChatList [\<lparr>s_chatId = 0, s_participants = [bob],
                               s_lastMessage = Placeholder\<rparr>]))"
    using some[THEN conjunct1] by (simp only: l)
  have l': "chatList db_sent ?u alice =
      [\<lparr>s_chatId = 0, s_participants = [bob],
        s_lastMessage = LastMsg \<lparr>msg_sender = alice, msg_text = ''hi'',
                                 msg_timestamp = 1000\<rparr>\<rparr>]"
    by (simp add: db_sent_def chatList_def Chat_find_in_def lastMessage_def)
  note after = some[THEN conjunct2, THEN conjunct2, THEN conjunct2, THEN conjunct2, THEN mp,
      OF h3]
  from after obtain d' out where s: "send_message cast24 db_ab 1000 1005 hi = Inr (d', out)"
    and cl: "chatlist d' alice = (d', (200, ChatList (chatList d' ?u alice)))"
    by blast
  from s have d': "d' = db_sent"
    by (simp add: send_hi_sent)
  have r3: "chatlist db_sent alice =
       (db_sent,
        (200, ChatList [\<lparr>s_chatId = 0, s_participants = [bob],
                         s_lastMessage = LastMsg \<lparr>msg_sender = alice, msg_text = ''hi'',
                                                  msg_timestamp = 1000\<rparr>\<rparr>]))"
    using cl unfolding d' by (simp only: l')
  note listed = chatlist_summaries[where ?d0.0 = db_two and e = bob and ps = "[alice, bob]"
      and socket = 5 and d = db_sent, THEN conjunct2, THEN conjunct2, THEN mp, OF h4]
  show ?thesis
    by (intro conjI) (rule db_ab_carol none db_ab_alice r2 h3[THEN conjunct1]
          h3[THEN conjunct2, THEN conjunct1] h3[THEN conjunct2, THEN conjunct2, THEN conjunct1]
          h3[THEN conjunct2, THEN conjunct2, THEN conjunct2] send_hi_sent r3
          h4[THEN conjunct1] h4[THEN conjunct2, THEN conjunct1]
          h4[THEN conjunct2, THEN conjunct2, THEN conjunct1]
          h4[THEN conjunct2, THEN conjunct2, THEN conjunct2] listed)+
qed

text \<open>
  Claim C4 fails for a chat that was created before one of its participants registered:
  Bob is a participant of chat 0, his \<^verbatim>\<open>chats\<close> list does not hold it, and his chat
  list is empty.
\<close>

theorem chatlist_unlinked_counterexample:
  "wf_db db_late
   \<and> db_chats db_late = [\<lparr>chat_id = 0, participants = [alice, bob], messages = []\<rparr>]
   \<and> User_findOne (db_users db_late) bob =
       Some \<lparr>email = bob, password = toy_hash ''pw'' 10, chats = []\<rparr>
   \<and> chatlist db_late bob = (db_late, (200, ChatList []))"
  by (simp add: db_late_eq chatlist_def User_findOne_def chatList_def Chat_find_in_def
                wf_db_def)

section \<open>Creating a chat\<close>

lemma User_findOne_None_iff: "User_findOne us e = None \<longleftrightarrow> e \<notin> set (map email us)"
  by (auto simp: User_findOne_def find_None_iff)

lemma foc_users_email:
  "map email (db_users (fst (findOrCreateChat d ps))) = map email (db_users d)"
  by (simp add: findOrCreateChat_def Let_def link_participants_email split: option.splits)

lemma foc_covers:
  assumes "findOrCreateChat d ps = (d', c)"
  shows "set ps \<subseteq> set (participants c)"
  using assms
  by (auto simp: findOrCreateChat_def Let_def chat_matches_def list_all_iff
           split: option.splits dest!: find_Some_mem)

lemma link_participants_unregistered:
  "User_findOne us e = None \<Longrightarrow>
     link_participants i ps us = link_participants i (removeAll e ps) us"
proof (induction ps arbitrary: us)
  case Nil
  then show ?case by simp
next
  case (Cons e' es)
  show ?case
  proof (cases "e' = e")
    case True
    then have "link_user i e' us = us"
      using Cons.prems by (simp add: link_user_unregistered)
    with True Cons.IH[OF Cons.prems] show ?thesis by simp
  next
    case False
    have "User_findOne (link_user i e' us) e = None"
      using Cons.prems by (simp add: User_findOne_None_iff link_user_email)
    from Cons.IH[OF this] False show ?thesis by simp
  qed
qed

lemma fan_out_mem:
  "(t, ev) \<in> set (fan_out d ps) \<longleftrightarrow>
     (\<exists>e \<in> set ps. \<exists>u. User_findOne (db_users d) e = Some u
        \<and> t = ToRoom e \<and> ev = ChatlistUpdated (chatList d u e))"
  by (induction ps) (auto split: option.splits)






text \<open>
  Claim C10. When a participant's email belongs to no user, \<^verbatim>\<open>create_chat\<close> still ends
  with a stored chat that lists the email and acknowledges it with a \<^verbatim>\<open>chat_created\<close>
  that lists it too. Afterwards there is still no user with that email and the users'
  emails are the ones before; every user record is as it was, or is the record of
  another participant with the new chat appended, and the users are linked exactly as
  for the request without that email. Nothing is emitted to the room of that email.
\<close>

theorem create_chat_unregistered:
  assumes "e \<in> set ps" and "User_findOne (db_users d) e = None"
  shows "case create_chat d socket ps of (d', out) \<Rightarrow>
      (\<exists>c \<in> set (db_chats d'). e \<in> set (participants c)
          \<and> (ToSocket socket,
              ChatCreated \<lparr>s_chatId = chat_id c, s_participants = participants c,
                           s_lastMessage = lastMessage c\<rparr>) \<in> set out)
      \<and> User_findOne (db_users d') e = None
      \<and> map email (db_users d') = map email (db_users d)
      \<and> (\<forall>u \<in> set (db_users d'). email u \<noteq> e)
      \<and> list_all2 (\<lambda>u u'. u' = u \<or> (email u \<in> set ps \<and> email u \<noteq> e
                                      \<and> u' = u\<lparr>chats := chats u @ [next_oid d]\<rparr>))
            (db_users d) (db_users d')
      \<and> db_users d' =
          (case find (chat_matches ps) (db_chats d) of
             None \<Rightarrow> link_participants (next_oid d) (removeAll e ps) (db_users d)
           | Some c \<Rightarrow> db_users d)
      \<and> (\<forall>ev. (ToRoom e, ev) \<notin> set out)"
proof -
  obtain d' c where r: "findOrCreateChat d ps = (d', c)"
    by (cases "findOrCreateChat d ps")
  have cc: "create_chat d socket ps =
      (d', fan_out d' ps @ [(ToSocket socket, ChatCreated (structuredChat c))])"
    using r by (simp add: create_chat_def)
  have em: "map email (db_users d') = map email (db_users d)"
    using foc_users_email[of d ps] r by simp
  then have none: "User_findOne (db_users d') e = None"
    using assms(2) by (simp add: User_findOne_None_iff)
  then have nouser: "\<forall>u \<in> set (db_users d'). email u \<noteq> e"
    by (auto simp: User_findOne_None_iff)
  have nopush: "(ToRoom e, ev) \<notin> set (fan_out d' ps)" for ev
    using none by (simp add: fan_out_mem)
  have users: "db_users d' =
          (case find (chat_matches ps) (db_chats d) of
             None \<Rightarrow> link_participants (next_oid d) (removeAll e ps) (db_users d)
           | Some c \<Rightarrow> db_users d)"
    using r link_participants_unregistered[OF assms(2), of "next_oid d" ps]
    by (auto simp: findOrCreateChat_def Let_def split: option.splits)
  have "list_all2 (\<lambda>u u'. u' = u \<or> (email u \<in> set ps \<and> next_oid d \<notin> set (chats u)
                                  \<and> u' = u\<lparr>chats := chats u @ [next_oid d]\<rparr>))
            (db_users d) (db_users d')"
    using r link_participants_rel[of ps "next_oid d" "db_users d"]
    by (auto simp: findOrCreateChat_def Let_def list_all2_same split: option.splits)
  moreover have "\<forall>u \<in> set (db_users d). email u \<noteq> e"
    using assms(2) by (auto simp: User_findOne_None_iff)
  ultimately have rel: "list_all2 (\<lambda>u u'. u' = u \<or> (email u \<in> set ps \<and> email u \<noteq> e
                                      \<and> u' = u\<lparr>chats := chats u @ [next_oid d]\<rparr>))
            (db_users d) (db_users d')"
    by (auto simp: list_all2_conv_all_nth)
  have "e \<in> set (participants c)"
    using foc_covers[OF r] assms(1) by auto
  then have "\<exists>x \<in> set (db_chats d'). e \<in> set (participants x)
          \<and> (ToSocket socket,
              ChatCreated \<lparr>s_chatId = chat_id x, s_participants = participants x,
                           s_lastMessage = lastMessage x\<rparr>)
            \<in> set (fan_out d' ps @ [(ToSocket socket, ChatCreated (structuredChat c))])"
    using foc_result(1)[OF r] by (intro bexI[of _ c]) (simp_all add: structuredChat_def)
  with none em nouser nopush rel users show ?thesis
    unfolding cc by simp
qed

theorem create_chat_unregistered_witness:
  "bob \<in> set [alice, bob] \<and> User_findOne (db_users db_a) bob = None
   \<and> (case create_chat db_a 5 [alice, bob] of (d', out) \<Rightarrow>
      (\<exists>c \<in> set (db_chats d'). bob \<in> set (participants c)
          \<and> (ToSocket 5,
              ChatCreated \<lparr>s_chatId = chat_id c, s_participants = participants c,
                           s_lastMessage = lastMessage c\<rparr>) \<in> set out)
      \<and> User_findOne (db_users d') bob = None
      \<and> map email (db_users d') = map email (db_users db_a)
      \<and> (\<forall>u \<in> set (db_users d'). email u \<noteq> bob)
      \<and> list_all2 (\<lambda>u u'. u' = u \<or> (email u \<in> set [alice, bob] \<and> email u \<noteq> bob
                                      \<and> u' = u\<lparr>chats := chats u @ [next_oid db_a]\<rparr>))
            (db_users db_a) (db_users d')
      \<and> db_users d' =
          (case find (chat_matches [alice, bob]) (db_chats db_a) of
             None \<Rightarrow> link_participants (next_oid db_a) (removeAll bob [alice, bob])
                      (db_users db_a)
           | Some c \<Rightarrow> db_users db_a)
      \<and> (\<forall>ev. (ToRoom bob, ev) \<notin> set out))"
proof -
  have h1: "bob \<in> set [alice, bob]" by simp
  have h2: "User_findOne (db_users db_a) bob = None"
    by (simp add: db_a_eq User_findOne_def)
  note t = create_chat_unregistered[OF h1 h2, of 5]
  show ?thesis
    by (intro conjI) (rule h1 h2 t)+
qed

section \<open>Registration, login and tokens\<close>

text \<open>
  Claim C6, as the code has it. \<^verbatim>\<open>POST /register\<close> answers 400 and leaves the store
  unchanged when a user with the email exists, and also when the email or the password
  is empty. Otherwise it answers 201 and appends exactly one user, whose password field
  is what \<^verbatim>\<open>bcrypt.hash\<close> returned for the password and the cost factor 10 and whose
  chat list is empty; registering that email again then answers 400 and changes nothing.
\<close>

theorem register_outcomes:
  "(User_findOne (db_users d) e \<noteq> None \<longrightarrow>
      fst (snd (register H d e pw)) = 400 \<and> fst (register H d e pw) = d)
   \<and> (e = [] \<or> pw = [] \<longrightarrow> register H d e pw = (d, (400, Message ''Required fields'')))
   \<and> (User_findOne (db_users d) e = None \<and> e \<noteq> [] \<and> pw \<noteq> [] \<longrightarrow>
        register H d e pw =
          (d\<lparr>db_users := db_users d @ [\<lparr>email = e, password = H pw 10, chats = []\<rparr>]\<rparr>,
           (201, Message ''Registered''))
        \<and> User_findOne (db_users (fst (register H d e pw))) e =
            Some \<lparr>email = e, password = H pw 10, chats = []\<rparr>
        \<and> fst (snd (register H (fst (register H d e pw)) e pw')) = 400
        \<and> fst (register H (fst (register H d e pw)) e pw') = fst (register H d e pw))"
  by (auto simp: register_def Let_def User_findOne_def find_append split: option.splits)

theorem register_outcomes_witness:
  "User_findOne (db_users db_a) alice \<noteq> None
   \<and> fst (snd (register toy_hash db_a alice ''other'')) = 400
   \<and> fst (register toy_hash db_a alice ''other'') = db_a
   \<and> (alice = [] \<or> [] = ([] :: string))
   \<and> register toy_hash db_a alice [] = (db_a, (400, Message ''Required fields''))
   \<and> User_findOne (db_users db_a) bob = None \<and> bob \<noteq> [] \<and> ''pw'' \<noteq> []
   \<and> register toy_hash db_a bob ''pw'' =
       (db_a\<lparr>db_users := db_users db_a @
                [\<lparr>email = bob, password = toy_hash ''pw'' 10, chats = []\<rparr>]\<rparr>,
        (201, Message ''Registered''))"
proof -
  have h1: "User_findOne (db_users db_a) alice \<noteq> None"
    by (simp add: db_a_eq User_findOne_def)
  have h2: "alice = [] \<or> [] = ([] :: string)" by simp
  have h3: "User_findOne (db_users db_a) bob = None \<and> bob \<noteq> [] \<and> ''pw'' \<noteq> []"
    by (simp add: db_a_eq User_findOne_def)
  note a = register_outcomes[where d = db_a and e = alice and pw = "''other''"
      and H = toy_hash, THEN conjunct1, THEN mp, OF h1]
  note b = register_outcomes[where d = db_a and e = alice and pw = "[]"
      and H = toy_hash, THEN conjunct2, THEN conjunct1, THEN mp, OF h2]
  note c = register_outcomes[where d = db_a and e = bob and pw = "''pw''"
      and H = toy_hash, THEN conjunct2, THEN conjunct2, THEN mp, OF h3, THEN conjunct1]
  show ?thesis
    by (intro conjI) (rule h1 a[THEN conjunct1] a[THEN conjunct2] h2 b
          h3[THEN conjunct1] h3[THEN conjunct2, THEN conjunct1]
          h3[THEN conjunct2, THEN conjunct2] c)+
qed

text \<open>
  Claim C6 fails for an empty password: no user has Alice's email, and still no user is
  created.
\<close>

theorem register_required_counterexample:
  "User_findOne (db_users init_db) alice = None
   \<and> register toy_hash init_db alice [] = (init_db, (400, Message ''Required fields''))"
  by (simp add: register_def init_db_def User_findOne_def)

lemma wf_db_user:
  "wf_db d \<Longrightarrow> User_findOne (db_users d) e = Some u \<Longrightarrow> e \<noteq> [] \<and> password u \<noteq> []"
  by (auto simp: wf_db_def list_all_iff dest!: User_findOne_email)

text \<open>
  Claim C7. \<^verbatim>\<open>POST /login\<close> never changes the store. It answers 404 when no user has
  the email, and also when the user found has no stored password. On a well-formed
  store, where every user has one, it answers 401 when the user's stored hash does not
  match the password, and otherwise 200 with a token signed with the server's secret,
  whose payload names the email and expires 3600 seconds after it was issued.
\<close>

theorem login_outcomes:
  "fst (login C d now e pw) = d
   \<and> (User_findOne (db_users d) e = None \<longrightarrow>
        snd (login C d now e pw) = (404, Message ''User not found''))
   \<and> (User_findOne (db_users d) e = Some u \<and> password u = [] \<longrightarrow>
        snd (login C d now e pw) = (404, Message ''User not found''))
   \<and> (wf_db d \<and> User_findOne (db_users d) e = Some u \<and> \<not> C pw (password u) \<longrightarrow>
        snd (login C d now e pw) = (401, Message ''Invalid password''))
   \<and> (wf_db d \<and> User_findOne (db_users d) e = Some u \<and> C pw (password u) \<longrightarrow>
        snd (login C d now e pw) =
          (200, LoginOk ''Login successful''
                  (Jwt JWT_SECRET \<lparr>c_email = Some e, c_iat = now div 1000,
                                    c_exp = Some (now div 1000 + 3600)\<rparr>)))"
proof (intro conjI impI)
  show "fst (login C d now e pw) = d"
    by (auto simp: login_def split: option.splits)
next
  assume "User_findOne (db_users d) e = None"
  then show "snd (login C d now e pw) = (404, Message ''User not found'')"
    by (simp add: login_def)
next
  assume "User_findOne (db_users d) e = Some u \<and> password u = []"
  then show "snd (login C d now e pw) = (404, Message ''User not found'')"
    by (simp add: login_def)
next
  assume h: "wf_db d \<and> User_findOne (db_users d) e = Some u \<and> \<not> C pw (password u)"
  then have "password u \<noteq> []"
    using wf_db_user[of d e u] by simp
  with h show "snd (login C d now e pw) = (401, Message ''Invalid password'')"
    by (simp add: login_def)
next
  assume h: "wf_db d \<and> User_findOne (db_users d) e = Some u \<and> C pw (password u)"
  then have "password u \<noteq> []"
    using wf_db_user[of d e u] by simp
  with h show "snd (login C d now e pw) =
          (200, LoginOk ''Login successful''
                  (Jwt JWT_SECRET \<lparr>c_email = Some e, c_iat = now div 1000,
                                    c_exp = Some (now div 1000 + 3600)\<rparr>))"
    by (simp add: login_def jwt_sign_def)
qed

theorem login_outcomes_witness:
  "User_findOne (db_users db_ab) carol = None
   \<and> snd (login toy_compare db_ab 5000 carol ''pw'') = (404, Message ''User not found'')
   \<and> (User_findOne (db_users (init_db\<lparr>db_users := [\<lparr>email = carol, password = [],
                                                       chats = []\<rparr>]\<rparr>)) carol =
        Some \<lparr>email = carol, password = [], chats = []\<rparr>
      \<and> password \<lparr>email = carol, password = [], chats = []\<rparr> = [])
   \<and> snd (login toy_compare (init_db\<lparr>db_users := [\<lparr>email = carol, password = [],
                                                     chats = []\<rparr>]\<rparr>) 5000 carol ''pw'') =
       (404, Message ''User not found'')
   \<and> (wf_db db_ab
      \<and> User_findOne (db_users db_ab) alice =
          Some \<lparr>email = alice, password = toy_hash ''pw'' 10, chats = [0]\<rparr>
      \<and> \<not> toy_compare ''bad''
            (password \<lparr>email = alice, password = toy_hash ''pw'' 10, chats = [0]\<rparr>))
   \<and> snd (login toy_compare db_ab 5000 alice ''bad'') = (401, Message ''Invalid password'')
   \<and> (wf_db db_ab
      \<and> User_findOne (db_users db_ab) alice =
          Some \<lparr>email = alice, password = toy_hash ''pw'' 10, chats = [0]\<rparr>
      \<and> toy_compare ''pw''
            (password \<lparr>email = alice, password = toy_hash ''pw'' 10, chats = [0]\<rparr>))
   \<and> snd (login toy_compare db_ab 5000 alice ''pw'') =
       (200, LoginOk ''Login successful''
               (Jwt JWT_SECRET \<lparr>c_email = Some alice, c_iat = 5000 div 1000,
                                 c_exp = Some (5000 div 1000 + 3600)\<rparr>))"
proof -
  let ?u = "\<lparr>email = alice, password = toy_hash ''pw'' 10, chats = [0]\<rparr>"
  let ?v = "\<lparr>email = carol, password = [], chats = []\<rparr>"
  let ?dv = "init_db\<lparr>db_users := [?v]\<rparr>"
  have h1: "User_findOne (db_users ?dv) carol = Some ?v \<and> password ?v = []"
    by (simp add: User_findOne_def)
  have h2: "wf_db db_ab \<and> User_findOne (db_users db_ab) alice = Some ?u
      \<and> \<not> toy_compare ''bad'' (password ?u)"
    using db_ab_wf db_ab_alice by (simp add: toy_compare_def toy_hash_def)
  have h3: "wf_db db_ab \<and> User_findOne (db_users db_ab) alice = Some ?u
      \<and> toy_compare ''pw'' (password ?u)"
    using db_ab_wf db_ab_alice by (simp add: toy_compare_def)
  note a = login_outcomes[where d = db_ab and e = carol and C = toy_compare and now = 5000
      and pw = "''pw''", THEN conjunct2, THEN conjunct1, THEN mp, OF db_ab_carol]
  note v = login_outcomes[where d = ?dv and e = carol and C = toy_compare and now = 5000
      and pw = "''pw''" and u = ?v, THEN conjunct2, THEN conjunct2, THEN conjunct1, THEN mp,
      OF h1]
  note b = login_outcomes[where d = db_ab and e = alice and C = toy_compare and now = 5000
      and pw = "''bad''" and u = ?u, THEN conjunct2, THEN conjunct2, THEN conjunct2,
      THEN conjunct1, THEN mp, OF h2]
  note c = login_outcomes[where d = db_ab and e = alice and C = toy_compare and now = 5000
      and pw = "''pw''" and u = ?u, THEN conjunct2, THEN conjunct2, THEN conjunct2,
      THEN conjunct2, THEN mp, OF h3]
  show ?thesis
    by (intro conjI) (rule db_ab_carol a h1[THEN conjunct1] h1[THEN conjunct2] v
          h2[THEN conjunct1] h2[THEN conjunct2, THEN conjunct1]
          h2[THEN conjunct2, THEN conjunct2] b
          h3[THEN conjunct2, THEN conjunct2] c)+
qed

lemma login_ok:
  assumes "snd (login C d t0 e pw) = (200, LoginOk msg tok)"
  shows "tok = jwt_sign e JWT_SECRET t0" and "\<exists>u. User_findOne (db_users d) e = Some u"
  using assms by (auto simp: login_def split: option.splits if_splits)

lemma verifyToken_word:
  "1 < length ws \<Longrightarrow> verifyToken (Some ws) t =
     (if ws ! 1 = Text [] then Inl (401, Message ''No token provided'')
      else case jwt_verify (ws ! 1) JWT_SECRET t of
             Inl err \<Rightarrow> Inl (403, Message ''Invalid token'')
           | Inr decoded \<Rightarrow>
               if c_email decoded = None \<or> c_email decoded = Some []
               then Inl (403, Message ''Invalid token'')
               else Inr decoded)"
  by (simp add: verifyToken_def)

text \<open>
  Claim C8, as the code has it. A token that \<^verbatim>\<open>POST /login\<close> issued on a well-formed
  store at \<open>t0\<close>, sent as \<^verbatim>\<open>Bearer <token>\<close>, is accepted by \<^verbatim>\<open>verifyToken\<close> with the
  email as identity at every instant whose clock second is before the second of issue
  plus 3600, hence at every instant up to 3599 seconds after \<open>t0\<close>, and rejected from
  that second on. A request is rejected with 401 when the header or its second word is
  missing or empty, and with 403 when the word is no token, is signed with another key,
  has expired, or carries no email. Whatever \<^verbatim>\<open>verifyToken\<close> accepts is a token signed
  with the server's secret, unexpired, with a non-empty email.
\<close>

theorem verifyToken_outcomes:
  "(wf_db d \<and> snd (login C d t0 e pw) = (200, LoginOk msg tok) \<longrightarrow>
      (t div 1000 < t0 div 1000 + 3600 \<longrightarrow>
         verifyToken (Some [Text ''Bearer'', tok]) t =
           Inr \<lparr>c_email = Some e, c_iat = t0 div 1000, c_exp = Some (t0 div 1000 + 3600)\<rparr>)
      \<and> (t0 div 1000 + 3600 \<le> t div 1000 \<longrightarrow>
         verifyToken (Some [Text ''Bearer'', tok]) t = Inl (403, Message ''Invalid token''))
      \<and> (t \<le> t0 + 3599000 \<longrightarrow>
         verifyToken (Some [Text ''Bearer'', tok]) t =
           Inr \<lparr>c_email = Some e, c_iat = t0 div 1000, c_exp = Some (t0 div 1000 + 3600)\<rparr>))
   \<and> verifyToken None t = Inl (401, Message ''No token provided'')
   \<and> (length ws \<le> 1 \<or> ws ! 1 = Text [] \<longrightarrow>
        verifyToken (Some ws) t = Inl (401, Message ''No token provided''))
   \<and> (1 < length ws \<and> ws ! 1 = Text s \<and> s \<noteq> [] \<longrightarrow>
        verifyToken (Some ws) t = Inl (403, Message ''Invalid token''))
   \<and> (1 < length ws \<and> ws ! 1 = Jwt k c \<and> k \<noteq> JWT_SECRET \<longrightarrow>
        verifyToken (Some ws) t = Inl (403, Message ''Invalid token''))
   \<and> (1 < length ws \<and> ws ! 1 = Jwt k c \<and> c_exp c = Some x \<and> x \<le> t div 1000 \<longrightarrow>
        verifyToken (Some ws) t = Inl (403, Message ''Invalid token''))
   \<and> (1 < length ws \<and> ws ! 1 = Jwt k c \<and> (c_email c = None \<or> c_email c = Some []) \<longrightarrow>
        verifyToken (Some ws) t = Inl (403, Message ''Invalid token''))
   \<and> (verifyToken hdr t = Inr c' \<longrightarrow>
        (\<exists>ws'. hdr = Some ws' \<and> 1 < length ws' \<and> ws' ! 1 = Jwt JWT_SECRET c')
        \<and> c_email c' \<noteq> None \<and> c_email c' \<noteq> Some []
        \<and> (case c_exp c' of None \<Rightarrow> True | Some x' \<Rightarrow> t div 1000 < x'))"
proof (intro conjI impI)
  assume h: "wf_db d \<and> snd (login C d t0 e pw) = (200, LoginOk msg tok)"
  then have tok: "tok = jwt_sign e JWT_SECRET t0" and ne: "e \<noteq> []"
    using login_ok[of C d t0 e pw msg tok] wf_db_user[of d e] by auto
  show "verifyToken (Some [Text ''Bearer'', tok]) t =
           Inr \<lparr>c_email = Some e, c_iat = t0 div 1000, c_exp = Some (t0 div 1000 + 3600)\<rparr>"
    if "t div 1000 < t0 div 1000 + 3600"
    using that ne by (simp add: verifyToken_def tok jwt_sign_def)
  show "verifyToken (Some [Text ''Bearer'', tok]) t = Inl (403, Message ''Invalid token'')"
    if "t0 div 1000 + 3600 \<le> t div 1000"
    using that by (simp add: verifyToken_def tok jwt_sign_def)
  show "verifyToken (Some [Text ''Bearer'', tok]) t =
           Inr \<lparr>c_email = Some e, c_iat = t0 div 1000, c_exp = Some (t0 div 1000 + 3600)\<rparr>"
    if "t \<le> t0 + 3599000"
  proof -
    have "t div 1000 \<le> (t0 + 3599 * 1000) div 1000"
      using that by (intro div_le_mono) simp
    then have "t div 1000 < t0 div 1000 + 3600"
      by simp
    then show ?thesis
      using ne by (simp add: verifyToken_def tok jwt_sign_def)
  qed
next
  show "verifyToken None t = Inl (401, Message ''No token provided'')"
    by (simp add: verifyToken_def)
next
  assume "length ws \<le> 1 \<or> ws ! 1 = Text []"
  then show "verifyToken (Some ws) t = Inl (401, Message ''No token provided'')"
    by (auto simp: verifyToken_def)
next
  assume "1 < length ws \<and> ws ! 1 = Text s \<and> s \<noteq> []"
  then show "verifyToken (Some ws) t = Inl (403, Message ''Invalid token'')"
    by (simp add: verifyToken_word)
next
  assume "1 < length ws \<and> ws ! 1 = Jwt k c \<and> k \<noteq> JWT_SECRET"
  then show "verifyToken (Some ws) t = Inl (403, Message ''Invalid token'')"
    by (simp add: verifyToken_word)
next
  assume "1 < length ws \<and> ws ! 1 = Jwt k c \<and> c_exp c = Some x \<and> x \<le> t div 1000"
  then show "verifyToken (Some ws) t = Inl (403, Message ''Invalid token'')"
    by (simp add: verifyToken_word)
next
  assume "1 < length ws \<and> ws ! 1 = Jwt k c \<and> (c_email c = None \<or> c_email c = Some [])"
  then show "verifyToken (Some ws) t = Inl (403, Message ''Invalid token'')"
    by (auto simp: verifyToken_word split: option.splits)
next
  assume r: "verifyToken hdr t = Inr c'"
  then obtain ws' where hdr: "hdr = Some ws'" and len: "1 < length ws'"
    by (cases hdr) (auto simp: verifyToken_def split: if_splits)
  from r have w: "ws' ! 1 \<noteq> Text []"
    and v: "jwt_verify (ws' ! 1) JWT_SECRET t = Inr c'"
    and em: "c_email c' \<noteq> None \<and> c_email c' \<noteq> Some []"
    unfolding hdr verifyToken_word[OF len]
    by (auto split: if_splits sum.splits)
  from v have j: "ws' ! 1 = Jwt JWT_SECRET c'"
    and ex: "case c_exp c' of None \<Rightarrow> True | Some x' \<Rightarrow> t div 1000 < x'"
    by (cases "ws' ! 1"; auto split: if_splits option.splits)+
  show "\<exists>ws'. hdr = Some ws' \<and> 1 < length ws' \<and> ws' ! 1 = Jwt JWT_SECRET c'"
    using hdr len j by blast
  show "c_email c' \<noteq> None" "c_email c' \<noteq> Some []"
    using em by simp_all
  show "case c_exp c' of None \<Rightarrow> True | Some x' \<Rightarrow> t div 1000 < x'"
    by (rule ex)
qed

lemma login_alice:
  "snd (login toy_compare db_ab 5000 alice ''pw'') =
     (200, LoginOk ''Login successful'' alice_token)"
  by (simp add: login_def db_ab_alice toy_compare_def jwt_sign_def alice_token_def)

theorem verifyToken_outcomes_witness:
  "(wf_db db_ab
    \<and> snd (login toy_compare db_ab 5000 alice ''pw'') =
        (200, LoginOk ''Login successful'' alice_token))
   \<and> (3604999::nat) div 1000 < 5000 div 1000 + 3600
   \<and> verifyToken (Some [Text ''Bearer'', alice_token]) 3604999 =
       Inr \<lparr>c_email = Some alice, c_iat = 5000 div 1000, c_exp = Some (5000 div 1000 + 3600)\<rparr>
   \<and> (5000::nat) div 1000 + 3600 \<le> 3605000 div 1000
   \<and> verifyToken (Some [Text ''Bearer'', alice_token]) 3605000 =
       Inl (403, Message ''Invalid token'')
   \<and> (3604000::nat) \<le> 5000 + 3599000
   \<and> verifyToken (Some [Text ''Bearer'', alice_token]) 3604000 =
       Inr \<lparr>c_email = Some alice, c_iat = 5000 div 1000, c_exp = Some (5000 div 1000 + 3600)\<rparr>
   \<and> (length [Text ''Bearer''] \<le> 1 \<or> [Text ''Bearer''] ! 1 = Text [])
   \<and> verifyToken (Some [Text ''Bearer'']) 6000 = Inl (401, Message ''No token provided'')
   \<and> (1 < length [Text ''Bearer'', Text ''junk''] \<and> [Text ''Bearer'', Text ''junk''] ! 1 = Text ''junk''
      \<and> ''junk'' \<noteq> [])
   \<and> verifyToken (Some [Text ''Bearer'', Text ''junk'']) 6000 =
       Inl (403, Message ''Invalid token'')
   \<and> (1 < length [Text ''Bearer'', Jwt ''forged'' \<lparr>c_email = Some alice, c_iat = 5, c_exp = None\<rparr>]
      \<and> [Text ''Bearer'', Jwt ''forged'' \<lparr>c_email = Some alice, c_iat = 5, c_exp = None\<rparr>] ! 1 =
          Jwt ''forged'' \<lparr>c_email = Some alice, c_iat = 5, c_exp = None\<rparr>
      \<and> ''forged'' \<noteq> JWT_SECRET)
   \<and> verifyToken (Some [Text ''Bearer'',
         Jwt ''forged'' \<lparr>c_email = Some alice, c_iat = 5, c_exp = None\<rparr>]) 6000 =
       Inl (403, Message ''Invalid token'')
   \<and> (1 < length [Text ''Bearer'', Jwt JWT_SECRET \<lparr>c_email = None, c_iat = 5, c_exp = None\<rparr>]
      \<and> [Text ''Bearer'', Jwt JWT_SECRET \<lparr>c_email = None, c_iat = 5, c_exp = None\<rparr>] ! 1 =
          Jwt JWT_SECRET \<lparr>c_email = None, c_iat = 5, c_exp = None\<rparr>
      \<and> (c_email \<lparr>c_email = None, c_iat = 5, c_exp = None\<rparr> = None
          \<or> c_email \<lparr>c_email = None, c_iat = 5, c_exp = None\<rparr> = Some []))
   \<and> verifyToken (Some [Text ''Bearer'',
         Jwt JWT_SECRET \<lparr>c_email = None, c_iat = 5, c_exp = None\<rparr>]) 6000 =
       Inl (403, Message ''Invalid token'')
   \<and> (1 < length [Text ''Bearer'', alice_token] \<and> [Text ''Bearer'', alice_token] ! 1 =
          Jwt JWT_SECRET \<lparr>c_email = Some alice, c_iat = 5, c_exp = Some 3605\<rparr>
      \<and> c_exp \<lparr>c_email = Some alice, c_iat = 5, c_exp = Some 3605\<rparr> = Some 3605
      \<and> (3605::nat) \<le> 4000000 div 1000)
   \<and> verifyToken (Some [Text ''Bearer'', alice_token]) 4000000 =
       Inl (403, Message ''Invalid token'')
   \<and> c_email \<lparr>c_email = Some alice, c_iat = 5000 div 1000,
                c_exp = Some (5000 div 1000 + 3600)\<rparr> \<noteq> None"
proof -
  let ?forged = "Jwt ''forged'' \<lparr>c_email = Some alice, c_iat = 5, c_exp = None\<rparr>"
  let ?anon = "\<lparr>c_email = None, c_iat = 5, c_exp = None\<rparr>"
  let ?mine = "\<lparr>c_email = Some alice, c_iat = 5, c_exp = Some 3605\<rparr>"
  have h0: "wf_db db_ab
    \<and> snd (login toy_compare db_ab 5000 alice ''pw'') =
        (200, LoginOk ''Login successful'' alice_token)"
    using db_ab_wf login_alice by simp
  have h1: "(3604999::nat) div 1000 < 5000 div 1000 + 3600" by simp
  have h2: "(5000::nat) div 1000 + 3600 \<le> 3605000 div 1000" by simp
  have h8: "(3604000::nat) \<le> 5000 + 3599000" by simp
  have h3: "length [Text ''Bearer''] \<le> 1 \<or> [Text ''Bearer''] ! 1 = Text []" by simp
  have h4: "1 < length [Text ''Bearer'', Text ''junk'']
      \<and> [Text ''Bearer'', Text ''junk''] ! 1 = Text ''junk'' \<and> ''junk'' \<noteq> []" by simp
  have h5: "1 < length [Text ''Bearer'', ?forged] \<and> [Text ''Bearer'', ?forged] ! 1 = ?forged
      \<and> ''forged'' \<noteq> JWT_SECRET"
    by (simp add: JWT_SECRET_def)
  have h6: "1 < length [Text ''Bearer'', Jwt JWT_SECRET ?anon]
      \<and> [Text ''Bearer'', Jwt JWT_SECRET ?anon] ! 1 = Jwt JWT_SECRET ?anon
      \<and> (c_email ?anon = None \<or> c_email ?anon = Some [])" by simp
  have h7: "1 < length [Text ''Bearer'', alice_token]
      \<and> [Text ''Bearer'', alice_token] ! 1 = Jwt JWT_SECRET ?mine
      \<and> c_exp ?mine = Some 3605 \<and> (3605::nat) \<le> 4000000 div 1000"
    by (simp add: alice_token_def)
  note a = verifyToken_outcomes[where d = db_ab and C = toy_compare and ?t0.0 = 5000
      and e = alice and pw = "''pw''" and msg = "''Login successful''" and tok = alice_token
      and t = 3604999, THEN conjunct1, THEN mp, OF h0, THEN conjunct1, THEN mp, OF h1]
  note b = verifyToken_outcomes[where d = db_ab and C = toy_compare and ?t0.0 = 5000
      and e = alice and pw = "''pw''" and msg = "''Login successful''" and tok = alice_token
      and t = 3605000, THEN conjunct1, THEN mp, OF h0, THEN conjunct2, THEN conjunct1,
      THEN mp, OF h2]
  note a3 = verifyToken_outcomes[where d = db_ab and C = toy_compare and ?t0.0 = 5000
      and e = alice and pw = "''pw''" and msg = "''Login successful''" and tok = alice_token
      and t = 3604000, THEN conjunct1, THEN mp, OF h0, THEN conjunct2, THEN conjunct2,
      THEN mp, OF h8]
  note c = verifyToken_outcomes[where t = 6000 and ws = "[Text ''Bearer'']",
      THEN conjunct2, THEN conjunct2, THEN conjunct1, THEN mp, OF h3]
  note d = verifyToken_outcomes[where t = 6000 and ws = "[Text ''Bearer'', Text ''junk'']"
      and s = "''junk''",
      THEN conjunct2, THEN conjunct2, THEN conjunct2, THEN conjunct1, THEN mp, OF h4]
  note e = verifyToken_outcomes[where t = 6000 and ws = "[Text ''Bearer'', ?forged]"
      and k = "''forged''" and c = "\<lparr>c_email = Some alice, c_iat = 5, c_exp = None\<rparr>",
      THEN conjunct2, THEN conjunct2, THEN conjunct2, THEN conjunct2, THEN conjunct1,
      THEN mp, OF h5]
  note f = verifyToken_outcomes[where t = 6000
      and ws = "[Text ''Bearer'', Jwt JWT_SECRET ?anon]" and k = JWT_SECRET and c = ?anon,
      THEN conjunct2, THEN conjunct2, THEN conjunct2, THEN conjunct2, THEN conjunct2,
      THEN conjunct2, THEN conjunct1, THEN mp, OF h6]
  note g = verifyToken_outcomes[where t = 4000000 and ws = "[Text ''Bearer'', alice_token]"
      and k = JWT_SECRET and c = ?mine and x = 3605,
      THEN conjunct2, THEN conjunct2, THEN conjunct2, THEN conjunct2, THEN conjunct2,
      THEN conjunct1, THEN mp, OF h7]
  note i = verifyToken_outcomes[where t = 3604999 and hdr = "Some [Text ''Bearer'', alice_token]"
      and c' = "\<lparr>c_email = Some alice, c_iat = 5000 div 1000,
                c_exp = Some (5000 div 1000 + 3600)\<rparr>",
      THEN conjunct2, THEN conjunct2, THEN conjunct2, THEN conjunct2, THEN conjunct2,
      THEN conjunct2, THEN conjunct2, THEN mp, OF a, THEN conjunct2, THEN conjunct1]
  show ?thesis
    by (intro conjI) (rule h0[THEN conjunct1] h0[THEN conjunct2] h1 a h2 b h8 a3 h3 c
          h4[THEN conjunct1] h4[THEN conjunct2, THEN conjunct1]
          h4[THEN conjunct2, THEN conjunct2] d
          h5[THEN conjunct1] h5[THEN conjunct2, THEN conjunct1]
          h5[THEN conjunct2, THEN conjunct2] e
          h6[THEN conjunct1] h6[THEN conjunct2, THEN conjunct1]
          h6[THEN conjunct2, THEN conjunct2] f
          h7[THEN conjunct1] h7[THEN conjunct2, THEN conjunct1]
          h7[THEN conjunct2, THEN conjunct2, THEN conjunct1]
          h7[THEN conjunct2, THEN conjunct2, THEN conjunct2] g i)+
qed

text \<open>
  Claim C8 fails within the hour after the issue: the token issued to Alice at the
  instant 5999, in the clock second 5, is rejected at the instant 3605000, which is
  3599001 milliseconds later.
\<close>

theorem verifyToken_hour_counterexample:
  "wf_db db_ab
   \<and> snd (login toy_compare db_ab 5999 alice ''pw'') =
       (200, LoginOk ''Login successful'' alice_token)
   \<and> (3605000::nat) = 5999 + 3599001
   \<and> (3605000::nat) < 5999 + 3600000
   \<and> verifyToken (Some [Text ''Bearer'', alice_token]) 3605000 =
       Inl (403, Message ''Invalid token'')"
  using db_ab_wf
  by (simp add: login_def db_ab_alice toy_compare_def jwt_sign_def alice_token_def
                verifyToken_def)

section \<open>The store invariant\<close>

text \<open>The empty store is well formed, and every handler keeps a store well formed, so
  every store the handlers can reach from the empty one is.\<close>

lemma wf_db_init: "wf_db init_db"
  by (simp add: wf_db_def init_db_def)

lemma wf_db_register:
  assumes "wf_db d" and "H pw 10 \<noteq> []"
  shows "wf_db (fst (register H d e pw))"
proof (cases "e = [] \<or> pw = [] \<or> User_findOne (db_users d) e \<noteq> None")
  case True
  with assms(1) show ?thesis
    by (auto simp: register_def split: option.splits)
next
  case False
  then have "e \<notin> set (map email (db_users d))"
    by (simp add: User_findOne_None_iff)
  with False assms show ?thesis
    by (auto simp: register_def wf_db_def Let_def list_all_iff)
qed

lemma wf_db_login: "wf_db d \<Longrightarrow> wf_db (fst (login C d now e pw))"
  by (auto simp: login_def split: option.splits)

lemma wf_db_chatlist: "wf_db d \<Longrightarrow> wf_db (fst (chatlist d e))"
  by (auto simp: chatlist_def split: option.splits)

lemma wf_db_shape:
  assumes "wf_db d"
    and shape: "map (\<lambda>c. (chat_id c, participants c)) cs =
                map (\<lambda>c. (chat_id c, participants c)) (db_chats d)"
  shows "wf_db (d\<lparr>db_chats := cs\<rparr>)"
proof -
  have "map fst (map (\<lambda>c. (chat_id c, participants c)) cs) =
        map fst (map (\<lambda>c. (chat_id c, participants c)) (db_chats d))"
    by (simp only: shape)
  then have ids: "map chat_id cs = map chat_id (db_chats d)"
    by (simp add: comp_def)
  have old: "\<exists>c \<in> set (db_chats d). chat_id c = chat_id x \<and> participants c = participants x"
    if "x \<in> set cs" for x
  proof -
    have "(chat_id x, participants x) \<in> set (map (\<lambda>c. (chat_id c, participants c)) cs)"
      using that by force
    then have "(chat_id x, participants x)
        \<in> set (map (\<lambda>c. (chat_id c, participants c)) (db_chats d))"
      by (simp only: shape)
    then show ?thesis by auto
  qed
  have "list_all (\<lambda>c. chat_id c < next_oid d) cs"
    using assms(1) old by (fastforce simp: wf_db_def list_all_iff)
  moreover have "list_all (\<lambda>c. chat_id c \<in> set (chats u) \<longrightarrow> email u \<in> set (participants c)) cs"
    if "u \<in> set (db_users d)" for u
    using assms(1) old that by (fastforce simp: wf_db_def list_all_iff)
  ultimately show ?thesis
    using assms(1) by (simp add: wf_db_def ids list_all_iff)
qed

lemma wf_db_send_message:
  assumes "wf_db d" and "send_message cast d t_default t_emit p = Inr (d', out)"
  shows "wf_db d'"
proof -
  from assms(2) obtain i where i: "cast (p_chatId p) = Some i"
    by (auto simp: send_message_def split: option.splits)
  show ?thesis
  proof (cases "Chat_findById (db_chats d) i")
    case None
    with assms i show ?thesis by (simp add: send_message_def)
  next
    case (Some c)
    from assms(2) have "d' = d\<lparr>db_chats := Chat_save
        (c\<lparr>messages := messages c @
             [\<lparr>msg_sender = p_sender p, msg_text = p_text p,
               msg_timestamp = t_default\<rparr>]\<rparr>) (db_chats d)\<rparr>"
      by (simp add: send_message_found[where cast = cast and p = p, OF i Some])
    then show ?thesis
      using wf_db_shape[OF assms(1) Chat_save_shape[OF Some] ] by simp
  qed
qed

lemma wf_db_create_chat: "wf_db d \<Longrightarrow> wf_db (fst (create_chat d socket ps))"
  using wf_db_foc[of d ps]
  by (cases "findOrCreateChat d ps") (simp add: create_chat_def)

lemma wf_db_later: "later d d' \<Longrightarrow> wf_db d \<Longrightarrow> wf_db d'"
proof (induction rule: later.induct)
  case (later_refl d)
  then show ?case .
next
  case (later_register d d1 bcrypt_hash pw e)
  then show ?case by (simp add: wf_db_register)
next
  case (later_send_message d d1 cast t_default t_emit p d2 out)
  then show ?case by (auto intro: wf_db_send_message)
next
  case (later_create_chat d d1 socket ps)
  then show ?case by (simp add: wf_db_create_chat)
qed

lemma wf_db_reachable: "later init_db d \<Longrightarrow> wf_db d"
  using wf_db_later[OF _ wf_db_init] .

text \<open>The example stores are reached from the empty one.\<close>

lemma later_db_ab: "later init_db db_ab" and later_db_late: "later init_db db_late"
proof -
  have a: "later init_db db_a"
    unfolding db_a_def by (rule later_register[OF later_refl]) simp
  have "later init_db db_two"
    unfolding db_two_def by (rule later_register[OF a]) simp
  then show "later init_db db_ab"
    unfolding db_ab_def by (rule later_create_chat)
  have "later init_db (fst (create_chat db_a 5 [alice, bob]))"
    using a by (rule later_create_chat)
  then show "later init_db db_late"
    unfolding db_late_def by (rule later_register) simp
qed

end
